theory Spec2Isabelle
  imports Complex_Main
begin

section \<open>Floor heating path finder: geometry primitives\<close>

text \<open>
  A shallow embedding of the routing core of \<^verbatim>\<open>archipack_floor_heating.py\<close>:
  the classes \<^verbatim>\<open>Seg\<close>, \<^verbatim>\<open>Turtle\<close>, \<^verbatim>\<open>Tree\<close> and \<^verbatim>\<open>PathFinder\<close>.

  Coordinates are Python floats in the source; here they are exact reals, so every
  statement below is about the arithmetic the code writes down, not about rounding.
  Indices are Python's unbounded integers (\<open>int\<close>), and an exception raised by the
  source is a value \<open>Inl e\<close> of the result type.
\<close>

datatype error = IndexError | ZeroDivisionError

subsection \<open>The library vector type\<close>

text \<open>
  \<^verbatim>\<open>mathutils.Vector\<close> with three components. \<open>a * b\<close> on two vectors is the dot
  product in the library version the source is written for, \<open>normalized\<close> leaves the
  zero vector as it is.
\<close>

datatype Vector = Vector (vx: real) (vy: real) (vz: real)

instantiation Vector :: "{plus, minus, uminus}"
begin

definition plus_Vector :: "Vector \<Rightarrow> Vector \<Rightarrow> Vector" where
  "plus_Vector a b = Vector (vx a + vx b) (vy a + vy b) (vz a + vz b)"

definition minus_Vector :: "Vector \<Rightarrow> Vector \<Rightarrow> Vector" where
  "minus_Vector a b = Vector (vx a - vx b) (vy a - vy b) (vz a - vz b)"

definition uminus_Vector :: "Vector \<Rightarrow> Vector" where
  "uminus_Vector a = Vector (- vx a) (- vy a) (- vz a)"

instance ..

end

definition smul :: "real \<Rightarrow> Vector \<Rightarrow> Vector" where
  "smul k a = Vector (k * vx a) (k * vy a) (k * vz a)"

definition dot :: "Vector \<Rightarrow> Vector \<Rightarrow> real" where
  "dot a b = vx a * vx b + vy a * vy b + vz a * vz b"

definition cross :: "Vector \<Rightarrow> Vector \<Rightarrow> Vector" where
  "cross a b = Vector (vy a * vz b - vz a * vy b)
                      (vz a * vx b - vx a * vz b)
                      (vx a * vy b - vy a * vx b)"

definition vlength :: "Vector \<Rightarrow> real" where
  "vlength a = sqrt (vx a * vx a + vy a * vy a + vz a * vz a)"

definition normalized :: "Vector \<Rightarrow> Vector" where
  "normalized a = (if vlength a = 0 then Vector 0 0 0 else smul (1 / vlength a) a)"

subsection \<open>Class Seg\<close>

text \<open>
  A segment is its origin \<open>p\<close>, its direction \<open>v\<close> and the index \<open>idx\<close> that
  \<^verbatim>\<open>PathFinder.insert\<close> stamps on it (\<open>-1\<close> from the constructor). The envelope
  the source stores beside them is refreshed by every method that changes \<open>p\<close> or
  \<open>v\<close>, so it is the function \<open>seg_envelope\<close> of the segment below.
\<close>

record Seg =
  seg_p :: Vector
  seg_v :: Vector
  seg_idx :: int

definition new_Seg :: "Vector \<Rightarrow> Vector \<Rightarrow> Seg" where
  "new_Seg p v = \<lparr>seg_p = p, seg_v = v, seg_idx = - 1\<rparr>"

definition Seg_init :: "Seg \<Rightarrow> Vector \<Rightarrow> Vector \<Rightarrow> Seg" where
  "Seg_init s p v = s\<lparr>seg_p := p, seg_v := v\<rparr>"

definition Seg_t :: "Seg \<Rightarrow> Seg \<Rightarrow> real" where
  "Seg_t self other =
     (let c = Vector (vy (seg_v other)) (- vx (seg_v other)) 0;
          d = dot (seg_v self) c
      in if d = 0 then 0
         else let dp = seg_p other - seg_p self
              in dot c dp / d)"

definition intersect_ext :: "Seg \<Rightarrow> Seg \<Rightarrow> bool \<times> Vector \<times> real \<times> real" where
  "intersect_ext self other =
     (let c = Vector (vy (seg_v other)) (- vx (seg_v other)) 0;
          d = dot (seg_v self) c
      in if d = 0 then (False, seg_p self, 0, 0)
         else let dp = seg_p other - seg_p self;
                  c2 = Vector (vy (seg_v self)) (- vx (seg_v self)) 0;
                  u = dot c dp / d;
                  v = dot c2 dp / d
              in (True, seg_p self + smul u (seg_v self), u, v))"

definition point_on_seg :: "Seg \<Rightarrow> Vector \<Rightarrow> real" where
  "point_on_seg self pt =
     (let dp = pt - seg_p self;
          dl = vlength (seg_v self)
      in if dl = 0 then 0
         else dot (seg_v self) dp / (dl ^ 2))"

definition farest_point :: "Seg \<Rightarrow> Seg \<Rightarrow> real \<times> Vector" where
  "farest_point self other =
     (let p0 = seg_p other;
          p1 = p0 + seg_v other;
          t0 = point_on_seg self p0;
          t1 = point_on_seg self p1
      in if t1 > t0 then (t1, p1) else (t0, p0))"

definition nearest_point :: "Seg \<Rightarrow> Seg \<Rightarrow> real \<times> Vector" where
  "nearest_point self other =
     (let p0 = seg_p other;
          p1 = p0 + seg_v other;
          t0 = point_on_seg self p0;
          t1 = point_on_seg self p1
      in if t1 < t0 then (t1, p1) else (t0, p0))"

definition distance_pt :: "Seg \<Rightarrow> Vector \<Rightarrow> real \<times> real" where
  "distance_pt self pt =
     (let dp = pt - seg_p self;
          dl = vlength (seg_v self)
      in if dl = 0 then (0, 0)
         else let d = (vx (seg_v self) * vy dp - vy (seg_v self) * vx dp) / dl;
                  t = dot (seg_v self) dp / (dl ^ 2)
              in (d, t))"

definition minimal_dist :: "Seg \<Rightarrow> Seg \<Rightarrow> real" where
  "minimal_dist self other =
     (let d0 = fst (distance_pt self (seg_p other));
          d1 = fst (distance_pt self (seg_p other + seg_v other))
      in if d1 < d0 then d1 else d0)"


subsection \<open>Envelope and the spatial index\<close>

text \<open>
  Modelled from the spec: the class \<^verbatim>\<open>Envelope\<close> of \<^verbatim>\<open>archipack_polylines\<close>, which
  is not part of the sources at hand. An envelope is the axis-aligned bounding rectangle
  of its points; two envelopes intersect when their closed rectangles overlap.
\<close>

record Envelope =
  minx :: real
  maxx :: real
  miny :: real
  maxy :: real

definition initByPoints :: "Vector \<Rightarrow> Vector \<Rightarrow> Envelope" where
  "initByPoints a b =
     \<lparr>minx = min (vx a) (vx b), maxx = max (vx a) (vx b),
      miny = min (vy a) (vy b), maxy = max (vy a) (vy b)\<rparr>"

definition expandBy :: "Envelope \<Rightarrow> real \<Rightarrow> Envelope" where
  "expandBy e tol =
     \<lparr>minx = minx e - tol, maxx = maxx e + tol,
      miny = miny e - tol, maxy = maxy e + tol\<rparr>"

definition env_intersects :: "Envelope \<Rightarrow> Envelope \<Rightarrow> bool" where
  "env_intersects a b =
     (\<not> (minx b > maxx a \<or> maxx b < minx a \<or> miny b > maxy a \<or> maxy b < miny a))"

definition seg_envelope :: "Seg \<Rightarrow> Envelope" where
  "seg_envelope s = initByPoints (seg_p s) (seg_p s + seg_v s)"

text \<open>\<^verbatim>\<open>SeekPoint\<close>: a location with the degenerate envelope of that one point.\<close>

definition SeekPoint_envelope :: "Vector \<Rightarrow> Envelope" where
  "SeekPoint_envelope p = initByPoints p p"

text \<open>
  Modelled from the spec: the class \<^verbatim>\<open>Qtree\<close> of \<^verbatim>\<open>archipack_polylines\<close>, the base
  class of \<^verbatim>\<open>Tree\<close>, is not part of the sources at hand. Following the contract the
  spec gives for the Spatial Index, \<open>insert\<close> appends the segment under the index the
  caller supplies (the callers always supply \<open>ngeoms\<close>), nothing is ever removed, and
  \<open>intersects_ext\<close> returns, in index order, the indices whose stored envelope
  intersects the query envelope expanded by the tolerance.
\<close>

record Tree =
  geoms :: "Seg list"
  width :: real
  height :: real

definition ngeoms :: "Tree \<Rightarrow> int" where
  "ngeoms tr = int (length (geoms tr))"

definition Qtree_insert :: "Tree \<Rightarrow> int \<Rightarrow> Seg \<Rightarrow> Tree" where
  "Qtree_insert tr i s = tr\<lparr>geoms := geoms tr @ [s]\<rparr>"

definition intersects_ext :: "Tree \<Rightarrow> Envelope \<Rightarrow> real \<Rightarrow> int list" where
  "intersects_ext tr e tol =
     map int (filter (\<lambda>i. env_intersects (expandBy e tol) (seg_envelope (geoms tr ! i)))
                     [0 ..< length (geoms tr)])"

text \<open>\<^verbatim>\<open>Tree.newSegment\<close>, on the two end points of the new segment.\<close>

definition newSegment :: "Tree \<Rightarrow> real \<times> real \<Rightarrow> real \<times> real \<Rightarrow> Tree \<times> Seg" where
  "newSegment tr c0 c1 =
     (let p0 = Vector (fst c0) (snd c0) 0;
          p1 = Vector (fst c1) (snd c1) 0;
          new_seg = new_Seg p0 (p1 - p0)
      in (Qtree_insert tr (ngeoms tr) new_seg, new_seg))"

subsection \<open>Python list indexing and exceptions\<close>

text \<open>
  \<open>xs[i]\<close> of a Python list: a negative index counts from the end, an index out of
  range raises \<^verbatim>\<open>IndexError\<close>.
\<close>

definition py_index :: "'a list \<Rightarrow> int \<Rightarrow> error + 'a" where
  "py_index xs i =
     (if 0 \<le> i \<and> i < int (length xs) then Inr (xs ! nat i)
      else if i < 0 \<and> - int (length xs) \<le> i then Inr (xs ! nat (int (length xs) + i))
      else Inl IndexError)"

text \<open>Sequencing of two computations, the first of which may raise.\<close>

definition ebind :: "error + 'a \<Rightarrow> ('a \<Rightarrow> error + 'b) \<Rightarrow> error + 'b" where
  "ebind m f = (case m of Inl e \<Rightarrow> Inl e | Inr x \<Rightarrow> f x)"

subsection \<open>Class Turtle\<close>

text \<open>
  The six probe segments of the turtle all hold the very \<^verbatim>\<open>Vector\<close> object \<open>p\<close> of the
  turtle, which \<^verbatim>\<open>move\<close> and \<^verbatim>\<open>relocate\<close> change in place (\<^verbatim>\<open>self.p += v\<close>): a move
  is therefore a move of all six origins.
\<close>

record Turtle =
  t_cw :: bool
  t_up :: real
  t_zAxis :: Vector
  t_p :: Vector
  t_front :: Seg
  t_front2 :: Seg
  t_front3 :: Seg
  t_left :: Seg
  t_left2 :: Seg
  t_right :: Seg

definition new_Turtle :: "Vector \<Rightarrow> Vector \<Rightarrow> bool \<Rightarrow> Turtle" where
  "new_Turtle p v cw =
     (let up = (if cw then 1 else - 1);
          zAxis = Vector 0 0 up;
          side = cross v zAxis
      in \<lparr>t_cw = cw, t_up = up, t_zAxis = zAxis, t_p = p,
          t_front = new_Seg p v,
          t_front2 = new_Seg p (smul 2 v),
          t_front3 = new_Seg p (smul 3 v),
          t_left = new_Seg p (- side),
          t_left2 = new_Seg p (smul 2 (- side)),
          t_right = new_Seg p side\<rparr>)"

definition rotate :: "Turtle \<Rightarrow> Vector \<Rightarrow> Turtle" where
  "rotate tu v =
     (let side = cross v (t_zAxis tu)
      in tu\<lparr>t_front := (t_front tu)\<lparr>seg_v := v\<rparr>,
            t_front2 := (t_front2 tu)\<lparr>seg_v := smul 2 v\<rparr>,
            t_front3 := (t_front3 tu)\<lparr>seg_v := smul 3 v\<rparr>,
            t_left := (t_left tu)\<lparr>seg_v := - side\<rparr>,
            t_left2 := (t_left2 tu)\<lparr>seg_v := smul 2 (- side)\<rparr>,
            t_right := (t_right tu)\<lparr>seg_v := side\<rparr>\<rparr>)"

definition move :: "Turtle \<Rightarrow> Vector \<Rightarrow> Turtle" where
  "move tu v =
     (let p = t_p tu + v
      in tu\<lparr>t_p := p,
            t_front := (t_front tu)\<lparr>seg_p := p\<rparr>,
            t_front2 := (t_front2 tu)\<lparr>seg_p := p\<rparr>,
            t_front3 := (t_front3 tu)\<lparr>seg_p := p\<rparr>,
            t_left := (t_left tu)\<lparr>seg_p := p\<rparr>,
            t_left2 := (t_left2 tu)\<lparr>seg_p := p\<rparr>,
            t_right := (t_right tu)\<lparr>seg_p := p\<rparr>\<rparr>)"

definition turn_right :: "Turtle \<Rightarrow> Turtle" where
  "turn_right tu = rotate tu (seg_v (t_right tu))"

definition turn_left :: "Turtle \<Rightarrow> Turtle" where
  "turn_left tu = rotate tu (seg_v (t_left tu))"

definition relocate :: "Turtle \<Rightarrow> Vector \<Rightarrow> Vector \<Rightarrow> Turtle" where
  "relocate tu p v = rotate (move tu (p - t_p tu)) v"

section \<open>Class PathFinder\<close>

text \<open>
  The engine's state. \<^verbatim>\<open>self.segs\<close> is the tree's own list \<^verbatim>\<open>tree._geoms\<close>, so it is
  \<open>geoms (tree pf)\<close> here. The scratch objects \<^verbatim>\<open>self.pt\<close>, \<^verbatim>\<open>self.seg\<close>,
  \<^verbatim>\<open>self.left\<close> and \<^verbatim>\<open>self.right\<close> are initialised anew before every read, so they are
  local values of the methods below, and \<^verbatim>\<open>obstacle\<close> takes \<^verbatim>\<open>self.left\<close> as an
  argument.
\<close>

datatype direction = LEFT | RIGHT

record PathFinder =
  tree :: Tree
  spacing :: real
  n_boundarys :: int
  last :: int
  turtle :: Turtle
  coords :: "Vector list"
  run :: bool
  allow_backward :: bool
  is_forward :: bool
  iter :: int
  max_iter :: real

definition segs :: "PathFinder \<Rightarrow> Seg list" where
  "segs pf = geoms (tree pf)"

text \<open>
  The constructor. The division of the last line raises \<^verbatim>\<open>ZeroDivisionError\<close> when
  \<open>spacing ** 2\<close> is zero; nothing else in it looks at the sign of the spacing.
\<close>

definition PathFinder_init :: "Tree \<Rightarrow> real \<Rightarrow> bool \<Rightarrow> bool \<Rightarrow> error + PathFinder" where
  "PathFinder_init tr sp allow_bw cw =
     (let p = Vector 0 0 0;
          v = Vector 1 0 0
      in if sp ^ 2 = 0 then Inl ZeroDivisionError
         else Inr \<lparr>tree = tr, spacing = sp, n_boundarys = ngeoms tr, last = - 1,
                   turtle = new_Turtle p (smul sp v) cw, coords = [],
                   run = True, allow_backward = allow_bw, is_forward = True,
                   iter = 0, max_iter = (width tr * height tr) / (sp ^ 2)\<rparr>)"

definition insert_seg :: "PathFinder \<Rightarrow> Vector \<Rightarrow> Vector \<Rightarrow> PathFinder \<times> int" where
  "insert_seg pf p0 p1 =
     (let seg = new_Seg p0 (p1 - p0);
          idx = ngeoms (tree pf);
          seg = seg\<lparr>seg_idx := idx\<rparr>
      in (pf\<lparr>tree := Qtree_insert (tree pf) idx seg\<rparr>, idx))"

text \<open>
  The loop of \<^verbatim>\<open>PathFinder.intersect\<close> over the candidates \<open>found\<close>, on the triple
  \<open>(intersect, t, idx)\<close>; \<open>skip\<close> is the index left out.
\<close>

fun intersect_loop ::
  "Seg list \<Rightarrow> int \<Rightarrow> Seg \<Rightarrow> int list \<Rightarrow> bool \<times> real \<times> int \<Rightarrow> error + (bool \<times> real \<times> int)" where
  "intersect_loop sgs skip seg [] acc = Inr acc"
| "intersect_loop sgs skip seg (i # found) (hit, t, idx) =
     (if i \<noteq> skip then
        (case py_index sgs i of
           Inl e \<Rightarrow> Inl e
         | Inr s \<Rightarrow>
             (case intersect_ext seg s of (it, pt, u, v) \<Rightarrow>
                if it \<and> 1.0001 \<ge> u \<and> u > 0 \<and> 1.0001 \<ge> v \<and> v \<ge> - 0.0001
                then (if u < t then intersect_loop sgs skip seg found (True, u, i)
                      else intersect_loop sgs skip seg found (True, t, idx))
                else intersect_loop sgs skip seg found (hit, t, idx)))
      else intersect_loop sgs skip seg found (hit, t, idx))"

definition intersect :: "PathFinder \<Rightarrow> Seg \<Rightarrow> error + (bool \<times> real \<times> int)" where
  "intersect pf seg =
     (let found = intersects_ext (tree pf) (seg_envelope seg) (0.005 * spacing pf);
          skip = ngeoms (tree pf) - 1
      in intersect_loop (segs pf) skip seg found (False, 10 ^ 32, - 1))"

definition normal :: "PathFinder \<Rightarrow> Seg \<Rightarrow> Vector \<times> real" where
  "normal pf seg =
     (let n = cross (normalized (seg_v seg)) (t_zAxis (turtle pf));
          v = normalized (seg_v (t_front (turtle pf)));
          d = vlength (n + v)
      in if d < 1 then (smul (spacing pf) (- n), vlength (- n + v))
         else (smul (spacing pf) n, d))"

definition seg_at_pos :: "Seg \<Rightarrow> Vector \<Rightarrow> bool" where
  "seg_at_pos seg p =
     (let v0 = seg_p seg - p
      in vlength v0 < 0.0001 \<or> vlength (v0 + seg_v seg) < 0.0001)"

text \<open>The loop of \<^verbatim>\<open>obstacle_seg\<close>, on the triple \<open>(d_max, idx, n)\<close>.\<close>

fun obstacle_seg_loop ::
  "PathFinder \<Rightarrow> Vector \<Rightarrow> int list \<Rightarrow> real \<times> int \<times> Vector \<Rightarrow> error + (real \<times> int \<times> Vector)" where
  "obstacle_seg_loop pf p [] acc = Inr acc"
| "obstacle_seg_loop pf p (i # found) (d_max, idx, n) =
     (case py_index (segs pf) i of
        Inl e \<Rightarrow> Inl e
      | Inr seg \<Rightarrow>
          if seg_at_pos seg p then
            (case normal pf seg of (ni, d) \<Rightarrow>
               if d > d_max then obstacle_seg_loop pf p found (d, i, ni)
               else obstacle_seg_loop pf p found (d_max, idx, n))
          else obstacle_seg_loop pf p found (d_max, idx, n))"

definition obstacle_seg :: "PathFinder \<Rightarrow> Vector \<Rightarrow> error + (int \<times> Vector)" where
  "obstacle_seg pf p =
     (let found = intersects_ext (tree pf) (SeekPoint_envelope p) 0.001
      in ebind (obstacle_seg_loop pf p found (- 1, - 1, seg_v (t_front (turtle pf))))
           (\<lambda>(d_max, idx, n). Inr (idx, n)))"

fun wall_seg_loop :: "PathFinder \<Rightarrow> Vector \<Rightarrow> int list \<Rightarrow> error + int" where
  "wall_seg_loop pf p [] = Inr (- 1)"
| "wall_seg_loop pf p (i # found) =
     (if i \<noteq> last pf then
        (case py_index (segs pf) i of
           Inl e \<Rightarrow> Inl e
         | Inr seg \<Rightarrow> if seg_at_pos seg p then Inr i else wall_seg_loop pf p found)
      else wall_seg_loop pf p found)"

definition wall_seg :: "PathFinder \<Rightarrow> Vector \<Rightarrow> error + int" where
  "wall_seg pf p = wall_seg_loop pf p (intersects_ext (tree pf) (SeekPoint_envelope p) 0.001)"

text \<open>
  \<^verbatim>\<open>obstacle\<close>, with the probe \<^verbatim>\<open>self.left\<close> as the argument \<open>left\<close>. The result is
  \<open>(hit, t, n, idx)\<close>.
\<close>

definition obstacle :: "PathFinder \<Rightarrow> Seg \<Rightarrow> error + (bool \<times> real \<times> Vector \<times> int)" where
  "obstacle pf left =
     ebind (intersect pf left) (\<lambda>(it, t, idx).
       if it then
         ebind (py_index (segs pf) idx) (\<lambda>seg.
           case nearest_point (t_front (turtle pf)) seg of (t, p) \<Rightarrow>
           ebind (obstacle_seg pf p) (\<lambda>(nxt, n).
           ebind (py_index (segs pf) nxt) (\<lambda>next_seg.
             let p = (if nxt < n_boundarys pf then p - smul 0.5 n else p - n);
                 sk = new_Seg p (seg_v next_seg);
                 t = Seg_t (t_front (turtle pf)) sk
             in Inr (True, t, n, idx))))
       else Inr (False, 0, seg_v (t_front (turtle pf)), - 1))"

definition start :: "PathFinder \<Rightarrow> Vector \<Rightarrow> Vector \<Rightarrow> PathFinder" where
  "start pf p v = pf\<lparr>turtle := relocate (turtle pf) p v, coords := coords pf @ [p]\<rparr>"

subsection \<open>The forward step\<close>

text \<open>
  The local variables of \<^verbatim>\<open>forward\<close> that outlive one block of the method:
  \<open>dir\<close>, \<open>side\<close>, \<open>n\<close>, \<open>t\<close>, \<open>next\<close>, \<open>seg\<close>, \<open>p\<close>, \<open>p0\<close> and \<open>hit\<close>.
  The method is cut at its own comment banners into blocks, each a function on these.
\<close>

record fwd_vars =
  l_dir :: direction
  l_side :: real
  l_n :: Vector
  l_t :: real
  l_next :: int
  l_seg :: Seg
  l_p :: Vector
  l_p0 :: Vector
  l_hit :: bool

text \<open>
  ``follow wall'' and ``regular segment'': from the wall segment \<open>last\<close> to the parameter
  \<open>t\<close> on the turtle's front of the probe line parallel to the constraining edge.
  The state is returned because \<open>last\<close> is assigned when it was negative.
\<close>

definition forward_wall :: "PathFinder \<Rightarrow> error + (PathFinder \<times> fwd_vars)" where
  "forward_wall pf0 =
     ebind (if last pf0 < 0
            then ebind (intersect pf0 (t_right (turtle pf0)))
                   (\<lambda>(it, t, idx). Inr (pf0\<lparr>last := idx\<rparr>))
            else Inr pf0) (\<lambda>pf.
     ebind (py_index (segs pf) (last pf)) (\<lambda>seg.
     case farest_point (t_front (turtle pf)) seg of (t, p0) \<Rightarrow>
     ebind (wall_seg pf p0) (\<lambda>nxt.
     ebind (py_index (segs pf) nxt) (\<lambda>seg.
       let sk = new_Seg p0 (seg_v (t_front (turtle pf)));
           p1 = seg_p seg;
           p1 = (if vlength (p0 - p1) < 0.0001 then seg_p seg + seg_v seg else p1);
           d = fst (distance_pt sk p1);
           dir = (if d * t_up (turtle pf) > 0 then LEFT else RIGHT);
           side = (if d * t_up (turtle pf) > 0 then - 1 else 1);
           n = fst (normal pf seg);
           p = (if nxt < n_boundarys pf then seg_p seg + smul (side * 0.5) n
                else seg_p seg + smul side n);
           sk = new_Seg p (seg_v seg);
           t = Seg_t (t_front (turtle pf)) sk
       in Inr (pf, \<lparr>l_dir = dir, l_side = side, l_n = n, l_t = t, l_next = nxt,
                    l_seg = seg, l_p = p, l_p0 = p0, l_hit = False\<rparr>)))))"

text \<open>
  The probe line of the block above: the scratch segment handed to \<^verbatim>\<open>turtle.front.t\<close>.
\<close>

definition forward_probe :: "fwd_vars \<Rightarrow> Seg" where
  "forward_probe l = new_Seg (l_p l) (seg_v (l_seg l))"

text \<open>``obstacle on segment'' and ``check for pipe'': the lateral probe at \<open>k\<close> times the
  turtle's left vector (\<open>k = 1\<close> and \<open>k = 1.5\<close> in the source), the seek line at
  \<open>m\<close> times the side normal (\<open>0.5\<close> and \<open>1.5\<close>); \<open>boundary\<close> tells which kind of
  hit segment is accepted.\<close>

definition forward_left :: "PathFinder \<Rightarrow> real \<Rightarrow> real \<Rightarrow> bool \<Rightarrow> fwd_vars \<Rightarrow> error + fwd_vars" where
  "forward_left pf k m boundary l =
     (if \<not> l_hit l then
        let v = seg_v (t_front (turtle pf));
            p1 = t_p (turtle pf) + smul k (seg_v (t_left (turtle pf)));
            left = new_Seg p1 v;
            sk = new_Seg (l_p l + smul (l_side l * m) (l_n l)) (seg_v (l_seg l));
            t_max = Seg_t left sk;
            t_max = (if t_max < 0 then 1 - t_max else t_max);
            left = Seg_init left p1 (smul t_max v)
        in ebind (obstacle pf left) (\<lambda>(it, o_t, o_n, idx).
             if it \<and> (if boundary then idx < n_boundarys pf else idx \<ge> n_boundarys pf)
                \<and> o_t < l_t l
             then Inr (l\<lparr>l_dir := LEFT, l_t := o_t, l_n := o_n, l_next := idx, l_hit := True\<rparr>)
             else Inr l)
      else Inr l)"

definition forward_reset_p :: "PathFinder \<Rightarrow> fwd_vars \<Rightarrow> fwd_vars" where
  "forward_reset_p pf l =
     (if l_next l < n_boundarys pf then l\<lparr>l_p := l_p0 l - smul 0.5 (l_n l)\<rparr>
      else l\<lparr>l_p := l_p0 l - l_n l\<rparr>)"

text \<open>``forward past segment''.\<close>

definition forward_front :: "PathFinder \<Rightarrow> fwd_vars \<Rightarrow> error + fwd_vars" where
  "forward_front pf l =
     (if \<not> l_hit l then
        let v = seg_v (t_front (turtle pf));
            sk = new_Seg (t_p (turtle pf)) (smul (l_t l + 2.5) v)
        in ebind (intersect pf sk) (\<lambda>(it, t_f, idx).
             if it then
               ebind (if idx \<noteq> l_next l
                      then ebind (py_index (segs pf) idx) (\<lambda>seg.
                             Inr (l\<lparr>l_next := idx, l_seg := seg,
                                    l_n := fst (normal pf seg), l_side := - 1\<rparr>))
                      else Inr l) (\<lambda>l.
                 let seg = l_seg l;
                     p = (if l_next l < n_boundarys pf
                          then seg_p seg + smul (l_side l * 0.5) (l_n l)
                          else seg_p seg + smul (l_side l) (l_n l));
                     sk = new_Seg p (seg_v seg);
                     t = Seg_t (t_front (turtle pf)) sk
                 in Inr (l\<lparr>l_p := p, l_dir := LEFT, l_t := t, l_hit := True\<rparr>))
             else Inr l)
      else Inr l)"

text \<open>``obstacle past segment'': the right-side probes, at \<open>k\<close> times the turtle's
  right vector (\<open>0.5\<close>, then \<open>1\<close>), with the clearance \<open>c\<close> times the spacing
  (\<open>1.5\<close>, then \<open>2\<close>) and the probe line at \<open>m\<close> times the normal (\<open>0.5\<close>, then \<open>1\<close>).\<close>

definition forward_right ::
  "PathFinder \<Rightarrow> real \<Rightarrow> real \<Rightarrow> real \<Rightarrow> bool \<Rightarrow> fwd_vars \<Rightarrow> error + fwd_vars" where
  "forward_right pf k c m boundary l =
     (if \<not> l_hit l \<and> l_dir l = RIGHT then
        let v = seg_v (t_front (turtle pf));
            seg = l_seg l;
            sk = new_Seg (seg_p seg + smul 0.5 (l_n l)) (seg_v seg);
            right = new_Seg (t_p (turtle pf) + smul k (seg_v (t_right (turtle pf)))) v;
            t0 = Seg_t right sk;
            right = Seg_init right (seg_p right + smul t0 v) (smul 2 v)
        in ebind (intersect pf right) (\<lambda>(it, o_t, idx).
             if it \<and> (if boundary then idx < n_boundarys pf else idx \<ge> n_boundarys pf) then
               ebind (py_index (segs pf) idx) (\<lambda>hs.
               case nearest_point (t_front (turtle pf)) hs of (o_t, p) \<Rightarrow>
               ebind (obstacle_seg pf p) (\<lambda>(idx, o_n).
               ebind (py_index (segs pf) idx) (\<lambda>os.
                 let d = minimal_dist os seg
                 in if d < c * spacing pf then
                      let sk = new_Seg (seg_p os - smul m o_n) (seg_v os);
                          t = Seg_t (t_front (turtle pf)) sk
                      in Inr (l\<lparr>l_p := p, l_dir := LEFT, l_seg := os, l_next := idx,
                                l_n := o_n, l_t := t, l_hit := True\<rparr>)
                    else Inr (l\<lparr>l_p := p\<rparr>))))
             else Inr l)
      else Inr l)"

text \<open>The blocks from the first obstacle check to the last one, in the source's order:
  the final values of \<open>t\<close>, \<open>n\<close>, \<open>dir\<close> and \<open>next\<close>.\<close>

definition forward_resolve :: "PathFinder \<Rightarrow> fwd_vars \<Rightarrow> error + fwd_vars" where
  "forward_resolve pf l =
     ebind (forward_left pf 1 0.5 True l) (\<lambda>l.
     ebind (forward_left pf 1.5 1.5 False l) (\<lambda>l.
     ebind (forward_front pf (forward_reset_p pf l)) (\<lambda>l.
     ebind (forward_right pf 0.5 1.5 0.5 True l) (\<lambda>l.
     forward_right pf 1 2 1 False l))))"

text \<open>The ``cap'' of the branch \<open>t < 0.5\<close>, which ends with \<^verbatim>\<open>return False\<close>.\<close>

definition forward_cap :: "PathFinder \<Rightarrow> error + (PathFinder \<times> bool)" where
  "forward_cap pf =
     ebind (py_index (segs pf) (- 1)) (\<lambda>ls.
       let tu = rotate (turtle pf) (smul (spacing pf) (normalized (seg_v ls)));
           tu = turn_right tu;
           tu = move tu (smul 0.5 (seg_v (t_front tu)))
       in ebind (py_index (coords pf) (- 1)) (\<lambda>p0.
            let p1 = t_p tu;
                pf = pf\<lparr>turtle := tu, coords := coords pf @ [p1]\<rparr>;
                pf = fst (insert_seg pf p0 p1);
                pf = pf\<lparr>turtle := turn_right (turtle pf)\<rparr>
            in ebind (intersect pf (t_left (turtle pf))) (\<lambda>(it, t, idx).
                 Inr (pf\<lparr>last := idx\<rparr>, False))))"

text \<open>The other branch: the pass is drawn, and the method returns \<open>True\<close>.\<close>

definition forward_draw :: "PathFinder \<Rightarrow> Vector \<Rightarrow> fwd_vars \<Rightarrow> error + (PathFinder \<times> bool)" where
  "forward_draw pf v l =
     (let tu = move (turtle pf) (smul (l_t l) v);
          tu = rotate tu (l_n l)
      in ebind (py_index (coords pf) (- 1)) (\<lambda>p0.
           let p1 = t_p tu;
               pf = pf\<lparr>turtle := tu, coords := coords pf @ [p1]\<rparr>;
               pf = fst (insert_seg pf p0 p1);
               pf = (case l_dir l of
                       LEFT \<Rightarrow> pf\<lparr>turtle := turn_left (turtle pf)\<rparr>
                     | RIGHT \<Rightarrow> pf\<lparr>turtle := turn_right (turtle pf)\<rparr>)
           in Inr (pf, True)))"

definition forward :: "PathFinder \<Rightarrow> error + (PathFinder \<times> bool)" where
  "forward pf0 =
     (let pf = pf0\<lparr>iter := iter pf0 + 1\<rparr>
      in if real_of_int (iter pf) > max_iter pf then Inr (pf, False)
         else
           let v = seg_v (t_front (turtle pf))
           in ebind (forward_wall pf) (\<lambda>(pf, l).
                if l_t l = 0 then Inr (pf, False)
                else
                  ebind (forward_resolve pf l) (\<lambda>l.
                    let pf = pf\<lparr>last := l_next l\<rparr>
                    in if l_t l < 0.5 then forward_cap pf
                       else forward_draw pf v l)))"

subsection \<open>The backward step\<close>

text \<open>
  The branch \<open>next \<noteq> -1\<close> up to the parameter \<open>t\<close> of the probe line on the turtle's
  front (``find intersection of turtle front vector and segment parallel to seg'').
\<close>

definition backward_wall :: "PathFinder \<Rightarrow> Vector \<Rightarrow> int \<Rightarrow> error + fwd_vars" where
  "backward_wall pf p0 nxt =
     ebind (py_index (segs pf) nxt) (\<lambda>seg.
       let v = seg_v (t_front (turtle pf));
           sk = new_Seg p0 v;
           p1 = seg_p seg;
           p1 = (if vlength (p0 - p1) < 0.0001 then p1 + seg_v seg else p1);
           d = fst (distance_pt sk p1);
           dir = (if d * t_up (turtle pf) > 0 then LEFT else RIGHT);
           side = (if d * t_up (turtle pf) > 0 then 1 else - 1);
           n = fst (normal pf seg);
           p = (if nxt < n_boundarys pf then seg_p seg + smul (side * 0.25) n
                else seg_p seg + smul (side * 0.5) n);
           sk = new_Seg p (seg_v seg);
           t = Seg_t (t_front (turtle pf)) sk
       in Inr \<lparr>l_dir = dir, l_side = side, l_n = n, l_t = t, l_next = nxt,
               l_seg = seg, l_p = p, l_p0 = p0, l_hit = False\<rparr>)"

definition backward_probe :: "fwd_vars \<Rightarrow> Seg" where
  "backward_probe l = new_Seg (l_p l) (seg_v (l_seg l))"

text \<open>``find any intersection along that segment'': the branch taken on a hit.\<close>

definition backward_along :: "PathFinder \<Rightarrow> int \<Rightarrow> fwd_vars \<Rightarrow> error + fwd_vars" where
  "backward_along pf idx l =
     ebind (py_index (segs pf) idx) (\<lambda>seg.
       let n = fst (normal pf seg);
           p = (if idx < n_boundarys pf then seg_p seg - smul 0.25 n
                else seg_p seg - smul 0.5 n);
           sk = new_Seg p (seg_v seg);
           t = Seg_t (t_front (turtle pf)) sk
       in Inr (l\<lparr>l_next := idx, l_seg := seg, l_n := n, l_p := p, l_t := t, l_dir := RIGHT\<rparr>))"

text \<open>
  ``other dir must hit'': the side probe of the branch \<^verbatim>\<open>if it or True\<close>, up to the test
  \<open>abs(t) < 0.5\<close>, which the caller makes on the result.
\<close>

definition backward_side :: "PathFinder \<Rightarrow> fwd_vars \<Rightarrow> error + fwd_vars" where
  "backward_side pf l =
     (let seg = (if l_dir l = LEFT then t_left (turtle pf) else t_right (turtle pf));
          sk = new_Seg (l_p l) (smul 0.75 (seg_v seg))
      in ebind (intersect pf sk) (\<lambda>(it, o_t, idx).
           if it then
             ebind (py_index (segs pf) idx) (\<lambda>seg.
             case nearest_point (t_front (turtle pf)) seg of (t, p) \<Rightarrow>
             ebind (obstacle_seg pf p) (\<lambda>(nxt, n).
             ebind (py_index (segs pf) nxt) (\<lambda>next_seg.
               let sk = new_Seg (t_p (turtle pf)) (smul (2 * vlength (seg_v seg)) (- n));
                   o_t = Seg_t next_seg sk;
                   side = (if 0 < o_t \<and> o_t < 1 then - 1 else 1);
                   p = (if nxt < n_boundarys pf then p - smul (side * 0.25) n
                        else p - smul (side * 0.5) n);
                   sk = new_Seg p (seg_v next_seg);
                   n = - n;
                   t = Seg_t (t_front (turtle pf)) sk
               in Inr (l\<lparr>l_seg := seg, l_next := nxt, l_n := n, l_side := side,
                         l_p := p, l_t := t\<rparr>))))
           else Inr (l\<lparr>l_seg := seg\<rparr>)))"

text \<open>The common tail of \<^verbatim>\<open>backward\<close>; \<open>bw\<close> is the local variable \<open>backward\<close>, the
  value the method returns.\<close>

definition backward_draw ::
  "PathFinder \<Rightarrow> Vector \<Rightarrow> bool \<Rightarrow> fwd_vars \<Rightarrow> error + (PathFinder \<times> bool)" where
  "backward_draw pf v bw l =
     (let pf = pf\<lparr>last := l_next l\<rparr>;
          tu = move (turtle pf) (smul (l_t l) v);
          tu = rotate tu (l_n l)
      in ebind (py_index (coords pf) (- 1)) (\<lambda>p0.
           let p1 = t_p tu;
               pf = pf\<lparr>turtle := tu, coords := coords pf @ [p1]\<rparr>;
               pf = fst (insert_seg pf p0 p1);
               pf = (case l_dir l of
                       LEFT \<Rightarrow> pf\<lparr>turtle := turn_left (turtle pf)\<rparr>
                     | RIGHT \<Rightarrow> pf\<lparr>turtle := turn_right (turtle pf)\<rparr>)
           in Inr (pf, bw)))"

text \<open>
  ``available directions'': the branch taken when nothing is hit along the segment. The
  test of the source is \<^verbatim>\<open>if it or True\<close>; its \<^verbatim>\<open>else\<close> branch assigns
  \<^verbatim>\<open>backward = False\<close> and falls through to the common tail.
\<close>

definition backward_front ::
  "PathFinder \<Rightarrow> Vector \<Rightarrow> bool \<Rightarrow> fwd_vars \<Rightarrow> error + (PathFinder \<times> bool)" where
  "backward_front pf v bw l =
     (let p = t_p (turtle pf) + smul (l_t l) v;
          sk = new_Seg p (smul 1.5 v);
          l = l\<lparr>l_p := p\<rparr>
      in ebind (intersect pf sk) (\<lambda>(it, o_t, idx).
           if it \<or> True then
             ebind (backward_side pf l) (\<lambda>l.
               if \<bar>l_t l\<bar> < 0.5 then Inr (pf\<lparr>run := False\<rparr>, False)
               else backward_draw pf v bw l)
           else
             backward_draw pf v False l))"

text \<open>
  \<^verbatim>\<open>PathFinder.backward\<close>. In the branch \<^verbatim>\<open>next == -1\<close> the source binds \<open>dir\<close>, \<open>n\<close> and
  \<open>t\<close> only; the common tail reads no other local, so the fields \<open>l_side\<close>, \<open>l_p\<close>,
  \<open>l_p0\<close> and \<open>l_hit\<close> of the record passed to it there carry no meaning.
\<close>

definition backward :: "PathFinder \<Rightarrow> error + (PathFinder \<times> bool)" where
  "backward pf0 =
     (let pf = pf0\<lparr>iter := iter pf0 + 1\<rparr>;
          bw = True;
          v = seg_v (t_front (turtle pf))
      in ebind (py_index (segs pf) (last pf)) (\<lambda>seg.
         case farest_point (t_front (turtle pf)) seg of (t, p0) \<Rightarrow>
         ebind (wall_seg pf p0) (\<lambda>nxt.
           if nxt = - 1 then
             let pf = pf\<lparr>run := False\<rparr>;
                 n = fst (normal pf seg)
             in backward_draw pf v bw
                  \<lparr>l_dir = RIGHT, l_side = 0, l_n = n, l_t = t, l_next = nxt,
                   l_seg = seg, l_p = p0, l_p0 = p0, l_hit = False\<rparr>
           else
             ebind (backward_wall pf p0 nxt) (\<lambda>l.
               let sk = new_Seg (t_p (turtle pf)) (smul (l_t l) v)
               in ebind (intersect pf sk) (\<lambda>(it, o_t, idx).
                    if it then
                      ebind (backward_along pf idx l) (\<lambda>l. backward_draw pf v bw l)
                    else
                      backward_front pf v bw l)))))"

subsection \<open>The stepping function and the driver loop\<close>

definition next_step :: "PathFinder \<Rightarrow> error + (PathFinder \<times> bool)" where
  "next_step pf =
     (if \<not> is_forward pf \<and> \<not> allow_backward pf then Inr (pf, False)
      else
        ebind (if is_forward pf then forward pf else backward pf) (\<lambda>(pf, res).
          let pf = (if \<not> res then pf\<lparr>is_forward := \<not> is_forward pf\<rparr> else pf)
          in if real_of_int (iter pf) > max_iter pf then Inr (pf, False)
             else Inr (pf, run pf)))"

text \<open>
  The loop \<^verbatim>\<open>while run: run = pf.next()\<close> of \<^verbatim>\<open>FloorGenerator.floor_heating\<close>, with
  fuel: \<open>None\<close> is ``the fuel ran out before the loop ended'', \<open>Some (Inl e)\<close> an
  exception, \<open>Some (Inr pf)\<close> the state in which \<^verbatim>\<open>next\<close> has returned \<open>False\<close>.
\<close>

fun run_loop :: "nat \<Rightarrow> PathFinder \<Rightarrow> (error + PathFinder) option" where
  "run_loop 0 pf = None"
| "run_loop (Suc k) pf =
     (case next_step pf of
        Inl e \<Rightarrow> Some (Inl e)
      | Inr (pf', r) \<Rightarrow> if r then run_loop k pf' else Some (Inr pf'))"

text \<open>The number of calls of \<^verbatim>\<open>next\<close> the loop makes (with the same fuel).\<close>

fun run_calls :: "nat \<Rightarrow> PathFinder \<Rightarrow> nat" where
  "run_calls 0 pf = 0"
| "run_calls (Suc k) pf =
     (case next_step pf of
        Inl e \<Rightarrow> 1
      | Inr (pf', r) \<Rightarrow> if r then 1 + run_calls k pf' else 1)"

text \<open>
  The caller's lines around the loop: construct, start at \<open>p\<close> with direction \<open>v\<close>,
  overwrite \<open>max_iter\<close>, and run.
\<close>

definition route ::
  "nat \<Rightarrow> Tree \<Rightarrow> real \<Rightarrow> bool \<Rightarrow> bool \<Rightarrow> Vector \<Rightarrow> Vector \<Rightarrow> int \<Rightarrow> (error + PathFinder) option" where
  "route fuel tr sp allow_bw cw p v mx =
     (case PathFinder_init tr sp allow_bw cw of
        Inl e \<Rightarrow> Some (Inl e)
      | Inr pf \<Rightarrow> run_loop fuel ((start pf p v)\<lparr>max_iter := real_of_int mx\<rparr>))"

section \<open>Notions of the specification\<close>

text \<open>
  The determinant of the two direction vectors in the plane (the ``cross of direction
  vectors''), and equality of two points in the plane, the third coordinate ignored.
\<close>

definition det_dirs :: "Seg \<Rightarrow> Seg \<Rightarrow> real" where
  "det_dirs A B = vx (seg_v A) * vy (seg_v B) - vy (seg_v A) * vx (seg_v B)"

definition xy_eq :: "Vector \<Rightarrow> Vector \<Rightarrow> bool" where
  "xy_eq a b = (vx a = vx b \<and> vy a = vy b)"

definition flat :: "Seg \<Rightarrow> bool" where
  "flat A = (vz (seg_p A) = 0 \<and> vz (seg_v A) = 0)"

text \<open>
  Distances in the plane: the planar cross product and length, the signed perpendicular
  distance of a point from the line of a segment (sign by the cross product), the foot of
  the perpendicular from a point to that line, and the perpendicular distance proper, the
  length from the point to that foot.
\<close>

definition cross2d :: "Vector \<Rightarrow> Vector \<Rightarrow> real" where
  "cross2d a b = vx a * vy b - vy a * vx b"

definition length2d :: "Vector \<Rightarrow> real" where
  "length2d a = sqrt (vx a * vx a + vy a * vy a)"

definition signed_perp_dist :: "Seg \<Rightarrow> Vector \<Rightarrow> real" where
  "signed_perp_dist A pt = cross2d (seg_v A) (pt - seg_p A) / length2d (seg_v A)"

definition foot :: "Seg \<Rightarrow> Vector \<Rightarrow> Vector" where
  "foot A pt =
     seg_p A + smul ((vx (seg_v A) * vx (pt - seg_p A) + vy (seg_v A) * vy (pt - seg_p A))
                     / (length2d (seg_v A))\<^sup>2) (seg_v A)"

definition perp_dist :: "Seg \<Rightarrow> Vector \<Rightarrow> real" where
  "perp_dist A pt = length2d (pt - foot A pt)"

section \<open>Concrete inputs\<close>

text \<open>Two segments: the unit segment on the x axis, and one that crosses it at a right
  angle, from \<open>(0, 1)\<close> to \<open>(0, -1)\<close>.\<close>

definition seg_A :: Seg where
  "seg_A = new_Seg (Vector 0 0 0) (Vector 1 0 0)"

definition seg_B :: Seg where
  "seg_B = new_Seg (Vector 0 1 0) (Vector 0 (- 2) 0)"

text \<open>
  The 4 by 4 square without obstacles: its four edges, inserted counter-clockwise in
  coordinates centred on the square.
\<close>

definition square_tree :: Tree where
  "square_tree =
     (let t0 = \<lparr>geoms = [], width = 4, height = 4\<rparr>;
          t1 = fst (newSegment t0 (- 2, - 2) (2, - 2));
          t2 = fst (newSegment t1 (2, - 2) (2, 2));
          t3 = fst (newSegment t2 (2, 2) (- 2, 2));
          t4 = fst (newSegment t3 (- 2, 2) (- 2, - 2))
      in t4)"

text \<open>
  The engine on the square as the caller sets it up, for a spacing \<open>sp\<close>, the clockwise
  pattern, backward steps allowed and the iteration cap \<open>mx\<close>: started at \<open>p\<close>, heading
  along the first edge.
\<close>

definition square_start :: "real \<Rightarrow> Vector \<Rightarrow> int \<Rightarrow> error + PathFinder" where
  "square_start sp p mx =
     ebind (PathFinder_init square_tree sp True True)
       (\<lambda>pf. Inr ((start pf p (Vector sp 0 0))\<lparr>max_iter := real_of_int mx\<rparr>))"

text \<open>
  Spacing \<open>0.3\<close>, started half a spacing inside the first edge and half a spacing from
  its origin, with the cap \<open>max_iter = 1\<close>; and the state after the first call of
  \<^verbatim>\<open>next\<close>: one pass drawn along the first edge, the turtle turned left at the corner.
\<close>

definition square_pf :: PathFinder where
  "square_pf = projr (square_start 0.3 (Vector (- 1.85) (- 1.85) 0) 1)"

definition square_pf1 :: PathFinder where
  "square_pf1 = square_pf\<lparr>iter := 1, last := 1,
      turtle := new_Turtle (Vector 1.85 (- 1.85) 0) (Vector 0 0.3 0) True,
      coords := coords square_pf @ [Vector 1.85 (- 1.85) 0],
      tree := (tree square_pf)\<lparr>geoms := geoms (tree square_pf)
                @ [\<lparr>seg_p = Vector (- 1.85) (- 1.85) 0, seg_v = Vector 3.7 0 0, seg_idx = 4\<rparr>]\<rparr>\<rparr>"

text \<open>
  The same engine started \<open>0.2\<close> before the far end of the first edge, where less than
  half a spacing of room is left in front; and the state in which its first forward step
  ends.
\<close>

definition corner_pf :: PathFinder where
  "corner_pf = projr (square_start 0.3 (Vector 1.8 (- 1.85) 0) 200)"

definition corner_pf1 :: PathFinder where
  "corner_pf1 = corner_pf\<lparr>iter := 1, last := - 1,
      turtle := new_Turtle (Vector 1.65 (- 1.85) 0) (Vector 0 0.3 0) True,
      coords := coords corner_pf @ [Vector 1.65 (- 1.85) 0],
      tree := (tree corner_pf)\<lparr>geoms := geoms (tree corner_pf)
                @ [\<lparr>seg_p = Vector 1.8 (- 1.85) 0, seg_v = Vector (- 0.15) 0 0, seg_idx = 4\<rparr>]\<rparr>\<rparr>"

text \<open>
  The state of the run on the square with spacing \<open>3\<close>, started at \<open>(-0.5, -0.5)\<close>, after
  four calls of \<^verbatim>\<open>next\<close>: one forward step that ended in the cap, then three backward
  steps.
\<close>

definition stop_pf :: PathFinder where
  "stop_pf =
     \<lparr>tree = (square_tree\<lparr>geoms := geoms square_tree @
          [\<lparr>seg_p = Vector (- 0.5) (- 0.5) 0, seg_v = Vector (- 1.5) 0 0, seg_idx = 4\<rparr>,
           \<lparr>seg_p = Vector (- 2) (- 0.5) 0, seg_v = Vector 0 1.5 0, seg_idx = 5\<rparr>,
           \<lparr>seg_p = Vector (- 2) 1 0, seg_v = Vector 3.25 0 0, seg_idx = 6\<rparr>,
           \<lparr>seg_p = Vector 1.25 1 0, seg_v = Vector 0 (- 2.25) 0, seg_idx = 7\<rparr>]\<rparr>),
      spacing = 3, n_boundarys = 4, last = 0,
      turtle = new_Turtle (Vector 1.25 (- 1.25) 0) (Vector (- 3) 0 0) True,
      coords = [Vector (- 0.5) (- 0.5) 0, Vector (- 2) (- 0.5) 0, Vector (- 2) 1 0,
                Vector 1.25 1 0, Vector 1.25 (- 1.25) 0],
      run = True, allow_backward = True, is_forward = False, iter = 4, max_iter = 200\<rparr>"

section \<open>Relations between two states of the engine\<close>

text \<open>
  What a step leaves alone (\<open>same_config\<close>), what drawing one segment does to the
  polyline and to the index (\<open>drawn\<close>), a step that draws nothing (\<open>unchanged\<close>), and an
  index that has only grown, each new segment stamped with its position (\<open>grown\<close>).
\<close>

definition same_config :: "PathFinder \<Rightarrow> PathFinder \<Rightarrow> bool" where
  "same_config pf pf' =
     (max_iter pf' = max_iter pf \<and> n_boundarys pf' = n_boundarys pf \<and> spacing pf' = spacing pf
      \<and> allow_backward pf' = allow_backward pf
      \<and> width (tree pf') = width (tree pf) \<and> height (tree pf') = height (tree pf))"

definition drawn :: "PathFinder \<Rightarrow> PathFinder \<Rightarrow> bool" where
  "drawn pf pf' =
     (\<exists>p0 p1. py_index (coords pf) (- 1) = Inr p0
        \<and> coords pf' = coords pf @ [p1]
        \<and> geoms (tree pf') = geoms (tree pf)
             @ [\<lparr>seg_p = p0, seg_v = p1 - p0, seg_idx = ngeoms (tree pf)\<rparr>])"

definition unchanged :: "PathFinder \<Rightarrow> PathFinder \<Rightarrow> bool" where
  "unchanged pf pf' = (coords pf' = coords pf \<and> geoms (tree pf') = geoms (tree pf))"

definition grown :: "Tree \<Rightarrow> Tree \<Rightarrow> bool" where
  "grown tr tr' =
     (length (geoms tr) \<le> length (geoms tr')
      \<and> take (length (geoms tr)) (geoms tr') = geoms tr
      \<and> map seg_idx (drop (length (geoms tr)) (geoms tr')) = [ngeoms tr .. ngeoms tr' - 1])"

section \<open>Evaluation on concrete inputs\<close>

text \<open>
  Lengths are square roots. For the evaluation of the engine on concrete inputs the
  functions that take a length get code equations, proved below, that compare squares
  instead and take the length of an axis-parallel vector without a root; \<open>sqrt_irr\<close>
  stands for a root that is left alone. The loop of \<^verbatim>\<open>obstacle_seg\<close> compares lengths
  \<open>d\<close>, so \<open>obstacle_seg_scan\<close> is the same loop on the vector whose length \<open>d\<close> is
  (\<open>normal_arg\<close>), with \<open>None\<close> for the initial \<open>d_max = -1\<close>.
\<close>

definition sqrt_irr :: "real \<Rightarrow> real" where
  "sqrt_irr x = sqrt x"

declare sqrt_irr_def [code del]

definition normal_arg :: "PathFinder \<Rightarrow> Seg \<Rightarrow> Vector" where
  "normal_arg pf seg =
     (let n = cross (normalized (seg_v seg)) (t_zAxis (turtle pf));
          v = normalized (seg_v (t_front (turtle pf)))
      in if dot (n + v) (n + v) < 1 then - n + v else n + v)"

fun obstacle_seg_scan ::
  "PathFinder \<Rightarrow> Vector \<Rightarrow> int list \<Rightarrow> Vector option \<times> int \<times> Vector
     \<Rightarrow> error + (Vector option \<times> int \<times> Vector)" where
  "obstacle_seg_scan pf p [] acc = Inr acc"
| "obstacle_seg_scan pf p (i # found) (m_max, idx, n) =
     (case py_index (segs pf) i of
        Inl e \<Rightarrow> Inl e
      | Inr seg \<Rightarrow>
          if seg_at_pos seg p then
            (if (case m_max of None \<Rightarrow> True
                 | Some m \<Rightarrow> dot (normal_arg pf seg) (normal_arg pf seg) > dot m m)
             then obstacle_seg_scan pf p found (Some (normal_arg pf seg), i, fst (normal pf seg))
             else obstacle_seg_scan pf p found (m_max, idx, n))
          else obstacle_seg_scan pf p found (m_max, idx, n))"

definition acc_len :: "Vector option \<Rightarrow> real" where
  "acc_len m = (case m of None \<Rightarrow> - 1 | Some a \<Rightarrow> vlength a)"

section \<open>Further concrete values\<close>

text \<open>
  The square engine after the second call of \<^verbatim>\<open>next\<close> under the cap \<open>max_iter = 1\<close>;
  and the local variables of a step towards the second edge of the square, which differ
  from case to case in \<open>side\<close>, \<open>t\<close>, \<open>p\<close> and \<open>hit\<close> only.
\<close>

definition square_pf2 :: PathFinder where
  "square_pf2 = square_pf1\<lparr>iter := 2, is_forward := False\<rparr>"

definition wall_vars :: "real \<Rightarrow> real \<Rightarrow> Vector \<Rightarrow> bool \<Rightarrow> fwd_vars" where
  "wall_vars side t p hit =
     \<lparr>l_dir = LEFT, l_side = side, l_n = Vector 0.3 0 0, l_t = t, l_next = 1,
      l_seg = \<lparr>seg_p = Vector 2 (- 2) 0, seg_v = Vector 0 4 0, seg_idx = - 1\<rparr>,
      l_p = p, l_p0 = Vector 2 (- 2) 0, l_hit = hit\<rparr>"




section \<open>Geometry primitives: intersection and distance\<close>

lemma intersect_ext_parallel:
  "det_dirs A B = 0 \<Longrightarrow> intersect_ext A B = (False, seg_p A, 0, 0)"
  by (simp add: intersect_ext_def det_dirs_def dot_def Let_def)

lemma intersect_ext_hit:
  assumes "det_dirs A B \<noteq> 0"
  shows "intersect_ext A B =
           (True,
            seg_p A + smul ((vy (seg_v B) * (vx (seg_p B) - vx (seg_p A))
                             - vx (seg_v B) * (vy (seg_p B) - vy (seg_p A))) / det_dirs A B) (seg_v A),
            (vy (seg_v B) * (vx (seg_p B) - vx (seg_p A))
               - vx (seg_v B) * (vy (seg_p B) - vy (seg_p A))) / det_dirs A B,
            (vy (seg_v A) * (vx (seg_p B) - vx (seg_p A))
               - vx (seg_v A) * (vy (seg_p B) - vy (seg_p A))) / det_dirs A B)"
  using assms by (simp add: intersect_ext_def det_dirs_def dot_def Let_def minus_Vector_def)

text \<open>
  Claim C3. \<^verbatim>\<open>Seg.intersect_ext\<close> reports no hit exactly when the determinant of the two
  direction vectors is zero, with no tolerance. Otherwise it reports a hit, the point
  \<open>A.p + u * A.v\<close>, and parameters \<open>u\<close> and \<open>v\<close> with \<open>A.p + u * A.v = B.p + v * B.v\<close>
  in the plane; for segments whose third coordinates are zero, as the engine builds them,
  this is an equation of the vectors.
\<close>

theorem intersect_ext_solves:
  "(fst (intersect_ext A B) = False \<longleftrightarrow> det_dirs A B = 0)
   \<and> (det_dirs A B \<noteq> 0 \<longrightarrow>
        (case intersect_ext A B of (hit, pt, u, v) \<Rightarrow>
           hit \<and> pt = seg_p A + smul u (seg_v A)
           \<and> xy_eq (seg_p A + smul u (seg_v A)) (seg_p B + smul v (seg_v B))
           \<and> (flat A \<and> flat B \<longrightarrow> seg_p A + smul u (seg_v A) = seg_p B + smul v (seg_v B))))"
proof (cases "det_dirs A B = 0")
  case True
  then show ?thesis by (simp add: intersect_ext_parallel)
next
  case False
  have x: "vx (seg_v A) * vy (seg_v B) - vy (seg_v A) * vx (seg_v B) \<noteq> 0"
    using False by (simp add: det_dirs_def)
  show ?thesis using False x
    apply (simp add: intersect_ext_hit xy_eq_def flat_def plus_Vector_def smul_def)
    apply (simp add: det_dirs_def field_simps)
    done
qed

theorem intersect_ext_solves_witness:
  "det_dirs seg_A seg_B \<noteq> 0 \<and> flat seg_A \<and> flat seg_B
   \<and> intersect_ext seg_A seg_B = (True, Vector 0 0 0, 0, 1 / 2)
   \<and> seg_p seg_A + smul 0 (seg_v seg_A) = seg_p seg_B + smul (1 / 2) (seg_v seg_B)"
  using intersect_ext_solves [of seg_A seg_B]
  by (simp add: seg_A_def seg_B_def new_Seg_def det_dirs_def flat_def intersect_ext_def
      dot_def Let_def plus_Vector_def minus_Vector_def smul_def)

lemma vlength_flat: "vz a = 0 \<Longrightarrow> vlength a = length2d a"
  by (simp add: vlength_def length2d_def)

lemma length2d_sq: "(length2d a)\<^sup>2 = vx a * vx a + vy a * vy a"
  by (simp add: length2d_def)

lemma distance_pt_signed:
  assumes "vz (seg_v A) = 0" "length2d (seg_v A) \<noteq> 0"
  shows "fst (distance_pt A pt) = signed_perp_dist A pt"
  using assms
  by (simp add: distance_pt_def Let_def vlength_flat signed_perp_dist_def cross2d_def
      minus_Vector_def)

lemma lagrange2:
  fixes a b x y :: real
  assumes "a * a + b * b \<noteq> 0"
  shows "(x - (a * x + b * y) * a / (a * a + b * b)) * (x - (a * x + b * y) * a / (a * a + b * b))
       + (y - (a * x + b * y) * b / (a * a + b * b)) * (y - (a * x + b * y) * b / (a * a + b * b))
       = (a * y - b * x)\<^sup>2 / (a * a + b * b)"
proof -
  define L where "L = a * a + b * b"
  define k where "k = (a * x + b * y) / L"
  have L: "L \<noteq> 0" using assms by (simp add: L_def)
  have kL: "k * L = a * x + b * y" using L by (simp add: k_def)
  have "(x - k * a) * (x - k * a) + (y - k * b) * (y - k * b)
        = x * x + y * y - 2 * k * (a * x + b * y) + k * k * L"
    by (simp add: L_def algebra_simps)
  also have "\<dots> = x * x + y * y - k * (k * L)"
    by (simp add: kL[symmetric] algebra_simps)
  also have "\<dots> = ((x * x + y * y) * L - (a * x + b * y) * (a * x + b * y)) / L"
    using L by (simp add: kL k_def field_simps)
  also have "(x * x + y * y) * L - (a * x + b * y) * (a * x + b * y) = (a * y - b * x)\<^sup>2"
    by (simp add: L_def power2_eq_square algebra_simps)
  finally show ?thesis by (simp add: k_def L_def)
qed

lemma perp_dist_abs_signed:
  assumes "length2d (seg_v A) \<noteq> 0"
  shows "perp_dist A pt = \<bar>signed_perp_dist A pt\<bar>"
proof -
  let ?a = "vx (seg_v A)" and ?b = "vy (seg_v A)"
  let ?L = "?a * ?a + ?b * ?b"
  have L: "?L \<noteq> 0" using assms
    by (simp add: length2d_def)
  have Lpos: "?L \<ge> 0" by simp
  have "(perp_dist A pt)\<^sup>2 = (?a * (vy pt - vy (seg_p A)) - ?b * (vx pt - vx (seg_p A)))\<^sup>2 / ?L"
    using lagrange2[OF L, of "vx pt - vx (seg_p A)" "vy pt - vy (seg_p A)"]
    by (simp add: perp_dist_def foot_def length2d_sq minus_Vector_def plus_Vector_def smul_def)
       (simp add: length2d_def algebra_simps)
  also have "\<dots> = (signed_perp_dist A pt)\<^sup>2"
    using Lpos by (simp add: signed_perp_dist_def cross2d_def length2d_def minus_Vector_def power_divide)
  finally have sq: "(perp_dist A pt)\<^sup>2 = (signed_perp_dist A pt)\<^sup>2" .
  have "perp_dist A pt \<ge> 0" by (simp add: perp_dist_def length2d_def)
  then show ?thesis using sq
    by (metis abs_of_nonneg power2_eq_iff abs_minus_cancel)
qed

text \<open>
  Claim C7, as stated: \<^verbatim>\<open>minimal_dist(A, B)\<close> is the minimum of the perpendicular
  distances from the line of \<open>A\<close> to the two end points of \<open>B\<close>. It is not: the method
  takes the minimum of the signed distances that \<^verbatim>\<open>distance_pt\<close> returns. For the unit
  segment on the x axis and the segment from \<open>(0, 1)\<close> to \<open>(0, -1)\<close> both end points are
  at distance \<open>1\<close> from the line, and the method returns \<open>-1\<close>.
\<close>

theorem minimal_dist_counterexample:
  "minimal_dist seg_A seg_B = - 1
   \<and> min (perp_dist seg_A (seg_p seg_B)) (perp_dist seg_A (seg_p seg_B + seg_v seg_B)) = 1"
  by (simp add: minimal_dist_def distance_pt_def Let_def seg_A_def seg_B_def new_Seg_def
      vlength_def perp_dist_def foot_def length2d_def minus_Vector_def plus_Vector_def smul_def)

text \<open>
  Claim C7, amended: for a segment \<open>A\<close> in the plane with a direction that is not zero,
  \<^verbatim>\<open>minimal_dist(A, B)\<close> is the minimum of the signed perpendicular distances of the two
  end points of \<open>B\<close> from the line of \<open>A\<close>; the absolute value of each signed distance is
  the perpendicular distance of that end point.
\<close>

theorem minimal_dist_signed:
  assumes "vz (seg_v A) = 0" and "length2d (seg_v A) \<noteq> 0"
  shows "minimal_dist A B
           = min (signed_perp_dist A (seg_p B)) (signed_perp_dist A (seg_p B + seg_v B))
         \<and> \<bar>signed_perp_dist A (seg_p B)\<bar> = perp_dist A (seg_p B)
         \<and> \<bar>signed_perp_dist A (seg_p B + seg_v B)\<bar> = perp_dist A (seg_p B + seg_v B)"
  using assms
  by (simp add: minimal_dist_def Let_def distance_pt_signed perp_dist_abs_signed min_def)

theorem minimal_dist_signed_witness:
  "vz (seg_v seg_A) = 0 \<and> length2d (seg_v seg_A) \<noteq> 0 \<and> minimal_dist seg_A seg_B = - 1
   \<and> signed_perp_dist seg_A (seg_p seg_B + seg_v seg_B) = - 1"
  using minimal_dist_signed [of seg_A seg_B]
  by (simp add: seg_A_def seg_B_def new_Seg_def length2d_def signed_perp_dist_def cross2d_def
      minus_Vector_def plus_Vector_def)

section \<open>The intersection query of the engine\<close>

lemma intersect_loop_skip:
  assumes "intersect_loop sgs skip seg found (hit0, t0, idx0) = Inr (hit, t, idx)"
    and "hit0 \<longrightarrow> idx0 \<noteq> skip"
    and "\<not> hit0 \<longrightarrow> t0 > 1.0001 \<and> idx0 = - 1"
  shows "(hit \<longrightarrow> idx \<noteq> skip \<and> (idx = idx0 \<and> hit0 \<or> idx \<in> set found))
         \<and> (\<not> hit \<longrightarrow> idx = - 1)"
  using assms
proof (induction found arbitrary: hit0 t0 idx0)
  case Nil
  then show ?case by auto
next
  case (Cons i found)
  show ?case
  proof (cases "i = skip")
    case True
    with Cons.prems have "intersect_loop sgs skip seg found (hit0, t0, idx0) = Inr (hit, t, idx)"
      by simp
    from Cons.IH[OF this Cons.prems(2,3)] show ?thesis by auto
  next
    case False
    then obtain s where s: "py_index sgs i = Inr s"
      using Cons.prems(1) by (cases "py_index sgs i") auto
    obtain it pt u v where ie: "intersect_ext seg s = (it, pt, u, v)"
      by (cases "intersect_ext seg s") auto
    show ?thesis
    proof (cases "it \<and> 1.0001 \<ge> u \<and> u > 0 \<and> 1.0001 \<ge> v \<and> v \<ge> - 0.0001")
      case acc: True
      show ?thesis
      proof (cases "u < t0")
        case True
        with acc False s ie Cons.prems(1)
        have "intersect_loop sgs skip seg found (True, u, i) = Inr (hit, t, idx)" by simp
        from Cons.IH[OF this] False show ?thesis by auto
      next
        case nlt: False
        with acc False s ie Cons.prems(1)
        have r: "intersect_loop sgs skip seg found (True, t0, idx0) = Inr (hit, t, idx)" by simp
        have h0: "hit0" using nlt acc Cons.prems(3) by (cases hit0) auto
        from Cons.IH[OF r] h0 Cons.prems(2) show ?thesis by auto
      qed
    next
      case nacc: False
      with False s ie Cons.prems(1)
      have "intersect_loop sgs skip seg found (hit0, t0, idx0) = Inr (hit, t, idx)" by auto
      from Cons.IH[OF this Cons.prems(2,3)] show ?thesis by auto
    qed
  qed
qed

text \<open>
  Claim C10. A query through \<^verbatim>\<open>PathFinder.intersect\<close> never reports the segment inserted
  last: whatever candidates the index returns, a hit has an index among them other than
  \<open>skip = ngeoms - 1\<close>; and the index returned is never \<open>ngeoms - 1\<close> when there is a hit
  or the index holds a segment at all (without a hit the index returned is \<open>-1\<close>).
\<close>

theorem intersect_excludes_last:
  "(intersect_loop sgs skip seg found (False, 10 ^ 32, - 1) = Inr (hit, t, idx) \<and> hit
      \<longrightarrow> idx \<noteq> skip \<and> idx \<in> set found)
   \<and> (intersect pf seg = Inr (hit, t, idx) \<and> (hit \<or> segs pf \<noteq> [])
      \<longrightarrow> idx \<noteq> ngeoms (tree pf) - 1)"
proof -
  have a: "idx \<noteq> skip \<and> idx \<in> set found"
    if "intersect_loop sgs skip seg found (False, 10 ^ 32, - 1) = Inr (hit, t, idx)" and hit
    using intersect_loop_skip[OF that(1)] that(2) by simp
  have b: "idx \<noteq> ngeoms (tree pf) - 1"
    if "intersect pf seg = Inr (hit, t, idx)" and "hit \<or> segs pf \<noteq> []"
  proof (cases hit)
    case True
    then show ?thesis
      using intersect_loop_skip[of "segs pf" "ngeoms (tree pf) - 1" seg _ False "10 ^ 32" "- 1" hit t idx]
        that(1)
      by (simp add: intersect_def Let_def)
  next
    case False
    then have "idx = - 1"
      using intersect_loop_skip[of "segs pf" "ngeoms (tree pf) - 1" seg _ False "10 ^ 32" "- 1" hit t idx]
        that(1)
      by (simp add: intersect_def Let_def)
    moreover have "segs pf \<noteq> []" using that(2) False by simp
    ultimately show ?thesis by (simp add: ngeoms_def segs_def)
  qed
  show ?thesis using a b by blast
qed

section \<open>What one step does to the state\<close>

lemma ebind_Inr_iff: "ebind m f = Inr y \<longleftrightarrow> (\<exists>x. m = Inr x \<and> f x = Inr y)"
  by (cases m) (auto simp: ebind_def)

lemma insert_seg_eq:
  "insert_seg pf p0 p1 =
     (pf\<lparr>tree := (tree pf)\<lparr>geoms := geoms (tree pf) @ [\<lparr>seg_p = p0, seg_v = p1 - p0, seg_idx = ngeoms (tree pf)\<rparr>]\<rparr>\<rparr>,
      ngeoms (tree pf))"
  by (simp add: insert_seg_def Let_def new_Seg_def Qtree_insert_def)

lemma forward_wall_frame:
  assumes "forward_wall pf = Inr (pf', l)"
  shows "\<exists>i. pf' = pf\<lparr>last := i\<rparr>"
proof -
  have "\<exists>pf1. (if last pf < 0 then ebind (intersect pf (t_right (turtle pf))) (\<lambda>(it, t, idx). Inr (pf\<lparr>last := idx\<rparr>)) else Inr pf) = Inr pf1
     \<and> pf' = pf1"
    using assms unfolding forward_wall_def
    by (auto simp: ebind_def Let_def split: sum.splits prod.splits)
  then show ?thesis
    by (auto simp: ebind_def split: if_splits prod.splits sum.splits intro: exI[of _ "last pf"])
qed

lemma forward_cap_frame:
  assumes "forward_cap pf = Inr (pf', r)"
  shows "\<not> r \<and> same_config pf pf' \<and> drawn pf pf' \<and> iter pf' = iter pf
         \<and> is_forward pf' = is_forward pf \<and> run pf' = run pf"
  using assms unfolding forward_cap_def
  by (auto simp: ebind_Inr_iff Let_def insert_seg_eq same_config_def drawn_def split: prod.splits)

lemma forward_draw_frame:
  assumes "forward_draw pf v l = Inr (pf', r)"
  shows "r \<and> same_config pf pf' \<and> drawn pf pf' \<and> iter pf' = iter pf
         \<and> is_forward pf' = is_forward pf \<and> run pf' = run pf"
  using assms unfolding forward_draw_def
  by (cases "l_dir l")
     (auto simp: ebind_Inr_iff Let_def insert_seg_eq same_config_def drawn_def)

lemma backward_draw_frame:
  assumes "backward_draw pf v bw l = Inr (pf', r)"
  shows "r = bw \<and> same_config pf pf' \<and> drawn pf pf' \<and> iter pf' = iter pf
         \<and> is_forward pf' = is_forward pf \<and> run pf' = run pf"
  using assms unfolding backward_draw_def
  by (cases "l_dir l")
     (auto simp: ebind_Inr_iff Let_def insert_seg_eq same_config_def drawn_def)

lemma same_config_last [simp]: "same_config (pf\<lparr>last := i\<rparr>) pf' = same_config pf pf'"
  "same_config (pf\<lparr>iter := k\<rparr>) pf' = same_config (pf\<lparr>max_iter := max_iter pf\<rparr>) pf'"
  "same_config (pf\<lparr>run := b\<rparr>) pf' = same_config pf pf'"
  by (simp_all add: same_config_def)

lemma drawn_upd [simp]: "drawn (pf\<lparr>last := i\<rparr>) pf' = drawn pf pf'"
  "drawn (pf\<lparr>iter := k\<rparr>) pf' = drawn pf pf'"
  "drawn (pf\<lparr>run := b\<rparr>) pf' = drawn pf pf'"
  by (simp_all add: drawn_def)

lemma forward_frame:
  assumes "forward pf = Inr (pf', r)"
  shows "same_config pf pf' \<and> iter pf' = iter pf + 1 \<and> is_forward pf' = is_forward pf
         \<and> run pf' = run pf
         \<and> (if r then drawn pf pf' else drawn pf pf' \<or> unchanged pf pf')"
proof (cases "real_of_int (iter pf + 1) > max_iter pf")
  case True
  with assms show ?thesis
    by (auto simp: forward_def Let_def same_config_def unchanged_def)
next
  case False
  let ?v = "seg_v (t_front (turtle (pf\<lparr>iter := iter pf + 1\<rparr>)))"
  have "ebind (forward_wall (pf\<lparr>iter := iter pf + 1\<rparr>)) (\<lambda>(pf1, l).
           if l_t l = 0 then Inr (pf1, False)
           else ebind (forward_resolve pf1 l) (\<lambda>l'.
                  if l_t l' < 0.5 then forward_cap (pf1\<lparr>last := l_next l'\<rparr>)
                  else forward_draw (pf1\<lparr>last := l_next l'\<rparr>) ?v l'))
        = Inr (pf', r)"
    using assms False unfolding forward_def Let_def by simp
  then obtain pf1 l where w: "forward_wall (pf\<lparr>iter := iter pf + 1\<rparr>) = Inr (pf1, l)"
    and rest: "(if l_t l = 0 then Inr (pf1, False)
                else ebind (forward_resolve pf1 l) (\<lambda>l'.
                       if l_t l' < 0.5 then forward_cap (pf1\<lparr>last := l_next l'\<rparr>)
                       else forward_draw (pf1\<lparr>last := l_next l'\<rparr>) ?v l')) = Inr (pf', r)"
    unfolding ebind_Inr_iff[of "forward_wall _"] by auto
  from forward_wall_frame[OF w] obtain i where pf1: "pf1 = pf\<lparr>iter := iter pf + 1, last := i\<rparr>"
    by auto
  show ?thesis
  proof (cases "l_t l = 0")
    case True
    with rest pf1 show ?thesis by (auto simp: same_config_def unchanged_def)
  next
    case nz: False
    with rest obtain l' where
      fin: "(if l_t l' < 0.5 then forward_cap (pf1\<lparr>last := l_next l'\<rparr>)
             else forward_draw (pf1\<lparr>last := l_next l'\<rparr>) ?v l') = Inr (pf', r)"
      by (auto simp: ebind_Inr_iff)
    show ?thesis
    proof (cases "l_t l' < 0.5")
      case True
      with fin forward_cap_frame[of "pf1\<lparr>last := l_next l'\<rparr>" pf' r] pf1 show ?thesis
        by (auto simp: same_config_def drawn_def)
    next
      case False
      with fin forward_draw_frame[of "pf1\<lparr>last := l_next l'\<rparr>" _ l' pf' r] pf1 show ?thesis
        by (auto simp: same_config_def drawn_def)
    qed
  qed
qed

lemma backward_front_result:
  assumes "backward_front pf v True l = Inr (pf', r)"
  shows "(r \<and> (\<exists>l'. backward_draw pf v True l' = Inr (pf', r)))
         \<or> (\<not> r \<and> pf' = pf\<lparr>run := False\<rparr>
            \<and> (\<exists>l0 l'. backward_side pf l0 = Inr l' \<and> \<bar>l_t l'\<bar> < 0.5))"
proof -
  from assms obtain l0 l' where bs: "backward_side pf l0 = Inr l'"
    and fin: "(if \<bar>l_t l'\<bar> < 0.5 then Inr (pf\<lparr>run := False\<rparr>, False)
               else backward_draw pf v True l') = Inr (pf', r)"
    unfolding backward_front_def Let_def
    by (auto simp: ebind_Inr_iff)
  show ?thesis
  proof (cases "\<bar>l_t l'\<bar> < 0.5")
    case True
    with fin bs show ?thesis by auto
  next
    case False
    with fin backward_draw_frame[of pf v True l' pf' r] show ?thesis by auto
  qed
qed

lemma backward_cases:
  assumes "backward pf = Inr (pf', r)"
  shows "(\<exists>l. backward_draw (pf\<lparr>iter := iter pf + 1\<rparr>)
                 (seg_v (t_front (turtle pf))) True l = Inr (pf', r))
         \<or> (\<exists>l. backward_draw (pf\<lparr>iter := iter pf + 1, run := False\<rparr>)
                 (seg_v (t_front (turtle pf))) True l = Inr (pf', r))
         \<or> (\<exists>l. backward_front (pf\<lparr>iter := iter pf + 1\<rparr>)
                 (seg_v (t_front (turtle pf))) True l = Inr (pf', r))"
proof -
  let ?pf = "pf\<lparr>iter := iter pf + 1\<rparr>"
  obtain seg where seg: "py_index (segs ?pf) (last pf) = Inr seg"
    using assms by (cases "py_index (segs ?pf) (last pf)") (simp_all add: backward_def Let_def ebind_def)
  obtain t p0 where fp: "farest_point (t_front (turtle pf)) seg = (t, p0)"
    by (cases "farest_point (t_front (turtle pf)) seg") auto
  obtain nxt where nxt: "wall_seg ?pf p0 = Inr nxt"
    using assms seg fp by (cases "wall_seg ?pf p0") (simp_all add: backward_def Let_def ebind_def)
  show ?thesis
  proof (cases "nxt = - 1")
    case True
    then show ?thesis using assms seg fp nxt
      by (auto simp: backward_def Let_def ebind_def)
  next
    case False
    obtain l where l: "backward_wall ?pf p0 nxt = Inr l"
      using assms seg fp nxt False
      by (cases "backward_wall ?pf p0 nxt") (simp_all add: backward_def Let_def ebind_def)
    obtain it o_t idx where i: "intersect ?pf (new_Seg (t_p (turtle pf)) (smul (l_t l) (seg_v (t_front (turtle pf))))) = Inr (it, o_t, idx)"
      using assms seg fp nxt False l
      by (cases "intersect ?pf (new_Seg (t_p (turtle pf)) (smul (l_t l) (seg_v (t_front (turtle pf)))))")
         (auto simp: backward_def Let_def ebind_def)
    show ?thesis
    proof (cases it)
      case True
      obtain l' where "backward_along ?pf idx l = Inr l'"
        using assms seg fp nxt False l i True
        by (cases "backward_along ?pf idx l") (simp_all add: backward_def Let_def ebind_def)
      then show ?thesis using assms seg fp nxt False l i True
        by (auto simp: backward_def Let_def ebind_def)
    next
      case nohit: False
      then show ?thesis using assms seg fp nxt False l i
        by (auto simp: backward_def Let_def ebind_def)
    qed
  qed
qed

lemma backward_result:
  assumes "backward pf = Inr (pf', r)"
  shows "(r \<and> same_config pf pf' \<and> drawn pf pf' \<and> iter pf' = iter pf + 1
            \<and> is_forward pf' = is_forward pf)
         \<or> (\<not> r \<and> pf' = pf\<lparr>iter := iter pf + 1, run := False\<rparr>
            \<and> (\<exists>l l'. backward_side (pf\<lparr>iter := iter pf + 1\<rparr>) l = Inr l' \<and> \<bar>l_t l'\<bar> < 0.5))"
proof -
  let ?pf = "pf\<lparr>iter := iter pf + 1\<rparr>"
  let ?v = "seg_v (t_front (turtle pf))"
  have draw: "r \<and> same_config pf pf' \<and> drawn pf pf' \<and> iter pf' = iter pf + 1
            \<and> is_forward pf' = is_forward pf"
    if "backward_draw ?pf ?v True l = Inr (pf', r) \<or> backward_draw (?pf\<lparr>run := False\<rparr>) ?v True l = Inr (pf', r)" for l
    using that backward_draw_frame[of ?pf ?v True l pf' r]
      backward_draw_frame[of "?pf\<lparr>run := False\<rparr>" ?v True l pf' r]
    by (auto simp: same_config_def drawn_def)
  from backward_cases[OF assms] consider
      (a) l where "backward_draw ?pf ?v True l = Inr (pf', r)"
    | (b) l where "backward_draw (?pf\<lparr>run := False\<rparr>) ?v True l = Inr (pf', r)"
    | (c) l where "backward_front ?pf ?v True l = Inr (pf', r)"
    by auto
  then show ?thesis
  proof cases
    case a
    then show ?thesis using draw by blast
  next
    case b
    then show ?thesis using draw by blast
  next
    case c
    from backward_front_result[OF c] show ?thesis
    proof
      assume "r \<and> (\<exists>l'. backward_draw ?pf ?v True l' = Inr (pf', r))"
      then show ?thesis using draw by blast
    next
      assume "\<not> r \<and> pf' = ?pf\<lparr>run := False\<rparr>
            \<and> (\<exists>l0 l'. backward_side ?pf l0 = Inr l' \<and> \<bar>l_t l'\<bar> < 0.5)"
      then show ?thesis by auto
    qed
  qed
qed


lemma grown_iff:
  "grown tr tr' \<longleftrightarrow>
     (\<exists>ys. geoms tr' = geoms tr @ ys
           \<and> map seg_idx ys = [ngeoms tr .. ngeoms tr + int (length ys) - 1])"
proof
  assume g: "grown tr tr'"
  let ?ys = "drop (length (geoms tr)) (geoms tr')"
  have "geoms tr' = geoms tr @ ?ys" using g unfolding grown_def
    by (metis append_take_drop_id)
  moreover have "ngeoms tr' = ngeoms tr + int (length ?ys)"
    using g by (simp add: grown_def ngeoms_def)
  ultimately show "\<exists>ys. geoms tr' = geoms tr @ ys
           \<and> map seg_idx ys = [ngeoms tr .. ngeoms tr + int (length ys) - 1]"
    using g unfolding grown_def by (intro exI[of _ ?ys]) simp
next
  assume "\<exists>ys. geoms tr' = geoms tr @ ys
           \<and> map seg_idx ys = [ngeoms tr .. ngeoms tr + int (length ys) - 1]"
  then show "grown tr tr'" by (auto simp: grown_def ngeoms_def)
qed

lemma grown_refl: "grown tr tr"
  by (simp add: grown_iff)

lemma upto_glue: "[n .. n + a - 1] @ [n + a .. n + a + b - 1] = [n .. n + (a + b) - 1]"
  if "0 \<le> a" "0 \<le> b" for n a b :: int
proof (cases "a = 0")
  case True
  then show ?thesis by simp
next
  case False
  with that upto_split2[of n "n + a - 1" "n + a + b - 1"] show ?thesis
    by (simp add: add.assoc)
qed

lemma grown_trans:
  assumes "grown a b" "grown b c"
  shows "grown a c"
proof -
  from assms(1) obtain ys where ys: "geoms b = geoms a @ ys"
    "map seg_idx ys = [ngeoms a .. ngeoms a + int (length ys) - 1]"
    by (auto simp: grown_iff)
  from assms(2) obtain zs where zs: "geoms c = geoms b @ zs"
    "map seg_idx zs = [ngeoms b .. ngeoms b + int (length zs) - 1]"
    by (auto simp: grown_iff)
  have nb: "ngeoms b = ngeoms a + int (length ys)" using ys(1) by (simp add: ngeoms_def)
  have "map seg_idx (ys @ zs) = [ngeoms a .. ngeoms a + int (length (ys @ zs)) - 1]"
    using ys(2) zs(2) nb upto_glue[of "int (length ys)" "int (length zs)" "ngeoms a"]
    by simp
  then show ?thesis using ys(1) zs(1) unfolding grown_iff
    by (intro exI[of _ "ys @ zs"]) simp
qed

lemma drawn_grown: "drawn pf pf' \<Longrightarrow> grown (tree pf) (tree pf')"
  by (auto simp: drawn_def grown_iff)

lemma unchanged_grown: "unchanged pf pf' \<Longrightarrow> grown (tree pf) (tree pf')"
  by (auto simp: unchanged_def grown_iff)

lemma next_step_frame:
  assumes "next_step pf = Inr (pf', r)"
  shows "same_config pf pf' \<and> (drawn pf pf' \<or> unchanged pf pf')
         \<and> (r \<longrightarrow> iter pf' = iter pf + 1 \<and> real_of_int (iter pf') \<le> max_iter pf)
         \<and> (real_of_int (iter pf') > max_iter pf' \<longrightarrow> \<not> r)"
proof (cases "\<not> is_forward pf \<and> \<not> allow_backward pf")
  case True
  with assms show ?thesis by (auto simp: next_step_def same_config_def unchanged_def)
next
  case False
  then obtain pf1 res where st: "(if is_forward pf then forward pf else backward pf) = Inr (pf1, res)"
    and fin: "pf' = (if \<not> res then pf1\<lparr>is_forward := \<not> is_forward pf1\<rparr> else pf1)"
    and r: "r = (if real_of_int (iter pf') > max_iter pf' then False else run pf')"
    using assms unfolding next_step_def
    by (cases "if is_forward pf then forward pf else backward pf")
       (auto simp: ebind_def Let_def split: if_splits)
  have "same_config pf pf1 \<and> (drawn pf pf1 \<or> unchanged pf pf1) \<and> iter pf1 = iter pf + 1"
  proof (cases "is_forward pf")
    case True
    with st forward_frame[of pf pf1 res] show ?thesis by (auto split: if_splits)
  next
    case False
    with st backward_result[of pf pf1 res] show ?thesis
      by (auto simp: same_config_def unchanged_def)
  qed
  then show ?thesis using fin r
    by (auto simp: same_config_def drawn_def unchanged_def)
qed

lemma next_step_coords:
  assumes "next_step pf = Inr (pf', r)"
  shows "length (coords pf') \<le> length (coords pf) + 1"
  using next_step_frame[OF assms] by (auto simp: drawn_def unchanged_def)

lemma run_loop_terminates:
  "nat (\<lfloor>max_iter pf\<rfloor> - iter pf) < fuel \<Longrightarrow> run_loop fuel pf \<noteq> None"
proof (induction fuel arbitrary: pf)
  case 0
  then show ?case by simp
next
  case (Suc k)
  show ?case
  proof (cases "next_step pf")
    case (Inl e)
    then show ?thesis by simp
  next
    case (Inr x)
    obtain pf' r where x: "x = (pf', r)" by (cases x)
    show ?thesis
    proof (cases r)
      case False
      with Inr x show ?thesis by simp
    next
      case True
      from next_step_frame[of pf pf' r] Inr x True
      have i: "iter pf' = iter pf + 1" "real_of_int (iter pf') \<le> max_iter pf"
        and m: "max_iter pf' = max_iter pf"
        by (auto simp: same_config_def)
      have "iter pf' \<le> \<lfloor>max_iter pf\<rfloor>" using i(2) by (simp add: le_floor_iff)
      then have "nat (\<lfloor>max_iter pf'\<rfloor> - iter pf') < k" using Suc.prems i(1) m by linarith
      from Suc.IH[OF this] Inr x True show ?thesis by simp
    qed
  qed
qed

lemma run_calls_bound:
  "run_calls fuel pf \<le> nat (\<lfloor>max_iter pf\<rfloor> - iter pf) + 1"
proof (induction fuel arbitrary: pf)
  case 0
  then show ?case by simp
next
  case (Suc k)
  show ?case
  proof (cases "next_step pf")
    case (Inl e)
    then show ?thesis by simp
  next
    case (Inr x)
    obtain pf' r where x: "x = (pf', r)" by (cases x)
    show ?thesis
    proof (cases r)
      case False
      with Inr x show ?thesis by simp
    next
      case True
      from next_step_frame[of pf pf' r] Inr x True
      have i: "iter pf' = iter pf + 1" "real_of_int (iter pf') \<le> max_iter pf"
        and m: "max_iter pf' = max_iter pf"
        by (auto simp: same_config_def)
      have "iter pf' \<le> \<lfloor>max_iter pf\<rfloor>" using i(2) by (simp add: le_floor_iff)
      then have "nat (\<lfloor>max_iter pf'\<rfloor> - iter pf') + 1 \<le> nat (\<lfloor>max_iter pf\<rfloor> - iter pf)"
        using i(1) m by linarith
      with Suc.IH[of pf'] Inr x True show ?thesis by simp
    qed
  qed
qed

lemma run_loop_coords:
  "run_loop fuel pf = Some (Inr pf') \<Longrightarrow>
     length (coords pf') \<le> length (coords pf) + run_calls fuel pf"
proof (induction fuel arbitrary: pf)
  case 0
  then show ?case by simp
next
  case (Suc k)
  from Suc.prems obtain pf1 r where n: "next_step pf = Inr (pf1, r)"
    by (cases "next_step pf") (auto split: prod.splits)
  show ?case
  proof (cases r)
    case False
    with Suc.prems n next_step_coords[OF n] show ?thesis by simp
  next
    case True
    with Suc.prems n have "run_loop k pf1 = Some (Inr pf')" by simp
    from Suc.IH[OF this] next_step_coords[OF n] n True show ?thesis by simp
  qed
qed

lemma next_step_grown:
  "next_step pf = Inr (pf', r) \<Longrightarrow> grown (tree pf) (tree pf')"
  using next_step_frame[of pf pf' r] drawn_grown unchanged_grown by blast

lemma run_loop_grown:
  "run_loop fuel pf = Some (Inr pf') \<Longrightarrow> grown (tree pf) (tree pf')"
proof (induction fuel arbitrary: pf)
  case 0
  then show ?case by simp
next
  case (Suc k)
  from Suc.prems obtain pf1 r where n: "next_step pf = Inr (pf1, r)"
    by (cases "next_step pf") (auto split: prod.splits)
  show ?case
  proof (cases r)
    case False
    with Suc.prems n next_step_grown[OF n] show ?thesis by simp
  next
    case True
    with Suc.prems n have "run_loop k pf1 = Some (Inr pf')" by simp
    from Suc.IH[OF this] next_step_grown[OF n] show ?thesis by (rule grown_trans[rotated])
  qed
qed


lemma length2d_zero_iff: "length2d a = 0 \<longleftrightarrow> vx a = 0 \<and> vy a = 0"
  by (simp add: length2d_def add_nonneg_eq_0_iff)

lemma normal_form:
  assumes z: "t_zAxis (turtle pf) = Vector 0 0 1 \<or> t_zAxis (turtle pf) = Vector 0 0 (- 1)"
    and flat: "vz (seg_v s) = 0" and nz: "length2d (seg_v s) \<noteq> 0"
  shows "\<exists>e. (e = 1 \<or> e = - 1)
          \<and> fst (normal pf s)
              = smul (e * spacing pf / length2d (seg_v s)) (Vector (vy (seg_v s)) (- vx (seg_v s)) 0)"
proof -
  have vl: "vlength (seg_v s) = length2d (seg_v s)" using flat by (rule vlength_flat)
  have nrm: "normalized (seg_v s) = smul (1 / length2d (seg_v s)) (seg_v s)"
    using nz vl by (simp add: normalized_def)
  from z show ?thesis
  proof
    assume up: "t_zAxis (turtle pf) = Vector 0 0 1"
    have c: "cross (normalized (seg_v s)) (t_zAxis (turtle pf))
               = smul (1 / length2d (seg_v s)) (Vector (vy (seg_v s)) (- vx (seg_v s)) 0)"
      using flat by (simp add: nrm up cross_def smul_def)
    show ?thesis
      unfolding normal_def Let_def c
      by (cases "vlength (smul (1 / length2d (seg_v s)) (Vector (vy (seg_v s)) (- vx (seg_v s)) 0)
                   + normalized (seg_v (t_front (turtle pf)))) < 1")
         (auto simp: smul_def uminus_Vector_def)
  next
    assume up: "t_zAxis (turtle pf) = Vector 0 0 (- 1)"
    have c: "cross (normalized (seg_v s)) (t_zAxis (turtle pf))
               = smul (- 1 / length2d (seg_v s)) (Vector (vy (seg_v s)) (- vx (seg_v s)) 0)"
      using flat by (simp add: nrm up cross_def smul_def)
    show ?thesis
      unfolding normal_def Let_def c
      by (cases "vlength (smul (- 1 / length2d (seg_v s)) (Vector (vy (seg_v s)) (- vx (seg_v s)) 0)
                   + normalized (seg_v (t_front (turtle pf)))) < 1")
         (auto simp: smul_def uminus_Vector_def)
  qed
qed

lemma offset_signed_dist:
  assumes nz: "length2d (seg_v s) \<noteq> 0"
  shows "signed_perp_dist s (seg_p s + smul k (smul (c / length2d (seg_v s)) (Vector (vy (seg_v s)) (- vx (seg_v s)) 0)))
           = - (k * c)"
proof -
  let ?a = "vx (seg_v s)" and ?b = "vy (seg_v s)" and ?L = "length2d (seg_v s)"
  have L2: "?L * ?L = ?a * ?a + ?b * ?b"
    using length2d_sq[of "seg_v s"] by (simp add: power2_eq_square)
  have "cross2d (seg_v s) (smul k (smul (c / ?L) (Vector ?b (- ?a) 0))) = - (k * c / ?L) * (?a * ?a + ?b * ?b)"
    by (simp add: cross2d_def smul_def algebra_simps)
  also have "\<dots> = - (k * c) * ?L" using nz L2 by (simp add: field_simps)
  finally have "cross2d (seg_v s) (smul k (smul (c / ?L) (Vector ?b (- ?a) 0))) = - (k * c) * ?L" .
  moreover have "seg_p s + smul k (smul (c / ?L) (Vector ?b (- ?a) 0)) - seg_p s
                  = smul k (smul (c / ?L) (Vector ?b (- ?a) 0))"
    by (simp add: plus_Vector_def minus_Vector_def smul_def)
  ultimately show ?thesis using nz by (simp add: signed_perp_dist_def)
qed

lemma offset_perp_dist:
  assumes z: "t_zAxis (turtle pf) = Vector 0 0 1 \<or> t_zAxis (turtle pf) = Vector 0 0 (- 1)"
    and flat: "vz (seg_v s) = 0" and nz: "length2d (seg_v s) \<noteq> 0"
  shows "perp_dist s (seg_p s + smul k (fst (normal pf s))) = \<bar>k\<bar> * \<bar>spacing pf\<bar>"
proof -
  from normal_form[OF z flat nz] obtain e where e: "e = 1 \<or> e = - 1"
    and n: "fst (normal pf s) = smul (e * spacing pf / length2d (seg_v s)) (Vector (vy (seg_v s)) (- vx (seg_v s)) 0)"
    by blast
  have "perp_dist s (seg_p s + smul k (fst (normal pf s))) = \<bar>- (k * (e * spacing pf))\<bar>"
    unfolding n perp_dist_abs_signed[OF nz] offset_signed_dist[OF nz] ..
  also have "\<dots> = \<bar>k\<bar> * \<bar>spacing pf\<bar>" using e by (auto simp: abs_mult)
  finally show ?thesis .
qed

lemma forward_wall_probe:
  assumes "forward_wall pf = Inr (pf', l)"
  shows "(l_side l = 1 \<or> l_side l = - 1)
         \<and> l_n l = fst (normal (pf\<lparr>last := last pf'\<rparr>) (l_seg l))
         \<and> py_index (segs pf) (l_next l) = Inr (l_seg l)
         \<and> l_p l = seg_p (l_seg l)
                     + smul (l_side l * (if l_next l < n_boundarys pf then 0.5 else 1)) (l_n l)
         \<and> l_t l = Seg_t (t_front (turtle pf)) (forward_probe l)"
proof -
  from forward_wall_frame[OF assms] obtain i where pf': "pf' = pf\<lparr>last := i\<rparr>" by blast
  have w: "(if last pf < 0 then ebind (intersect pf (t_right (turtle pf))) (\<lambda>(it, t, idx). Inr (pf\<lparr>last := idx\<rparr>)) else Inr pf) = Inr pf'"
    using assms unfolding forward_wall_def
    by (auto simp: ebind_def Let_def split: sum.splits prod.splits)
  show ?thesis
    using assms unfolding forward_wall_def w
    by (auto simp: ebind_def Let_def pf' forward_probe_def segs_def split: sum.splits prod.splits)
qed

lemma backward_wall_probe:
  assumes "backward_wall pf p0 nxt = Inr l"
  shows "(l_side l = 1 \<or> l_side l = - 1)
         \<and> l_n l = fst (normal pf (l_seg l)) \<and> l_next l = nxt
         \<and> py_index (segs pf) nxt = Inr (l_seg l)
         \<and> l_p l = seg_p (l_seg l)
                     + smul (l_side l * (if nxt < n_boundarys pf then 0.25 else 0.5)) (l_n l)
         \<and> l_t l = Seg_t (t_front (turtle pf)) (backward_probe l)"
  using assms unfolding backward_wall_def
  by (auto simp: ebind_def Let_def backward_probe_def split: sum.splits if_splits)

section \<open>The cap branch, the iteration cap and the backward stop\<close>

lemma intersect_last [simp]: "intersect (pf\<lparr>last := i\<rparr>) s = intersect pf s"
  by (simp add: intersect_def segs_def)

lemma forward_takes_cap:
  assumes "\<not> real_of_int (iter pf + 1) > max_iter pf"
    and "forward_wall (pf\<lparr>iter := iter pf + 1\<rparr>) = Inr (pf1, l)" and "l_t l \<noteq> 0"
    and "forward_resolve pf1 l = Inr l'" and "l_t l' < 0.5"
  shows "forward pf = forward_cap (pf1\<lparr>last := l_next l'\<rparr>)"
  using assms by (simp add: forward_def Let_def ebind_def)

lemma forward_capped:
  assumes "real_of_int (iter pf + 1) > max_iter pf"
  shows "forward pf = Inr (pf\<lparr>iter := iter pf + 1\<rparr>, False)"
  using assms by (simp add: forward_def Let_def)

lemma next_step_capped:
  assumes "is_forward pf" and "real_of_int (iter pf + 1) > max_iter pf"
  shows "next_step pf = Inr (pf\<lparr>iter := iter pf + 1, is_forward := False\<rparr>, False)"
  using assms by (simp add: next_step_def forward_capped ebind_def Let_def)

lemma next_step_forward_False:
  assumes "is_forward pf" and "forward pf = Inr (pf', False)"
  shows "next_step pf = Inr (pf'\<lparr>is_forward := False\<rparr>,
                             \<not> real_of_int (iter pf') > max_iter pf' \<and> run pf')"
proof -
  have "is_forward pf'" using forward_frame[OF assms(2)] assms(1) by simp
  then show ?thesis using assms by (simp add: next_step_def ebind_def Let_def)
qed

lemma forward_cap_effect:
  assumes "forward_cap pf = Inr (pf', r)"
  shows "\<not> r \<and> (\<exists>ls p0 it t.
           py_index (segs pf) (- 1) = Inr ls \<and> py_index (coords pf) (- 1) = Inr p0
           \<and> turtle pf' = turn_right (move (turn_right (rotate (turtle pf)
                  (smul (spacing pf) (normalized (seg_v ls)))))
                  (smul 0.5 (seg_v (t_right (rotate (turtle pf)
                     (smul (spacing pf) (normalized (seg_v ls))))))))
           \<and> coords pf' = coords pf @ [t_p (turtle pf')]
           \<and> geoms (tree pf') = geoms (tree pf)
                @ [\<lparr>seg_p = p0, seg_v = t_p (turtle pf') - p0, seg_idx = ngeoms (tree pf)\<rparr>]
           \<and> intersect pf' (t_left (turtle pf')) = Inr (it, t, last pf'))"
proof -
  have front: "seg_v (t_front (turn_right tu)) = seg_v (t_right tu)" for tu
    by (simp add: turn_right_def rotate_def Let_def)
  have tp: "t_p (turn_right tu) = t_p tu" for tu
    by (simp add: turn_right_def rotate_def Let_def)
  show ?thesis
    using assms unfolding forward_cap_def
    by (auto simp: ebind_def Let_def insert_seg_eq front tp split: sum.splits prod.splits)
qed

lemma cross_z_twice:
  assumes "z = Vector 0 0 1 \<or> z = Vector 0 0 (- 1)" and "vz v = 0"
  shows "cross (cross v z) z = - v"
  using assms by (cases v) (auto simp: cross_def uminus_Vector_def)

lemma vlength_smul: "vlength (smul k a) = \<bar>k\<bar> * vlength a"
proof -
  have "(k * vx a) * (k * vx a) + (k * vy a) * (k * vy a) + (k * vz a) * (k * vz a)
          = k\<^sup>2 * (vx a * vx a + vy a * vy a + vz a * vz a)"
    by (simp add: power2_eq_square algebra_simps)
  then have "vlength (smul k a) = sqrt (k\<^sup>2 * (vx a * vx a + vy a * vy a + vz a * vz a))"
    by (simp add: vlength_def smul_def)
  also have "\<dots> = \<bar>k\<bar> * vlength a"
    by (simp add: real_sqrt_mult vlength_def)
  finally show ?thesis .
qed

lemma vlength_cross_z:
  assumes "z = Vector 0 0 1 \<or> z = Vector 0 0 (- 1)" and "vz v = 0"
  shows "vlength (smul k (cross v z)) = \<bar>k\<bar> * vlength v"
proof -
  have "vlength (cross v z) = vlength v"
    using assms by (auto simp: vlength_def cross_def algebra_simps)
  then show ?thesis by (simp add: vlength_smul)
qed

lemma vlength_scaled_unit:
  assumes "vlength a \<noteq> 0"
  shows "vlength (smul s (normalized a)) = \<bar>s\<bar>"
proof -
  have "0 \<le> vlength a" by (simp add: vlength_def)
  then show ?thesis using assms
    by (simp add: normalized_def vlength_smul)
qed

lemma cap_geometry:
  assumes z: "t_zAxis tu = Vector 0 0 1 \<or> t_zAxis tu = Vector 0 0 (- 1)"
    and flat: "vz a = 0" and nz: "vlength a \<noteq> 0"
  shows "seg_v (t_front (rotate tu (smul s (normalized a)))) = smul s (normalized a)"
    and "t_p (move (turn_right (rotate tu (smul s (normalized a))))
               (smul 0.5 (seg_v (t_right (rotate tu (smul s (normalized a))))))) - t_p tu
           = smul 0.5 (cross (smul s (normalized a)) (t_zAxis tu))"
    and "vlength (smul 0.5 (cross (smul s (normalized a)) (t_zAxis tu))) = \<bar>s\<bar> / 2"
    and "seg_v (t_front (turn_right (move (turn_right (rotate tu (smul s (normalized a))))
               (smul 0.5 (seg_v (t_right (rotate tu (smul s (normalized a)))))))))
           = - smul s (normalized a)"
proof -
  let ?d = "smul s (normalized a)"
  have dz: "vz ?d = 0" using flat by (simp add: normalized_def smul_def)
  show "seg_v (t_front (rotate tu ?d)) = ?d" by (simp add: rotate_def Let_def)
  show "t_p (move (turn_right (rotate tu ?d)) (smul 0.5 (seg_v (t_right (rotate tu ?d))))) - t_p tu
           = smul 0.5 (cross ?d (t_zAxis tu))"
    by (simp add: move_def turn_right_def rotate_def Let_def plus_Vector_def minus_Vector_def
        smul_def)
  show "vlength (smul 0.5 (cross ?d (t_zAxis tu))) = \<bar>s\<bar> / 2"
    using vlength_cross_z[OF z dz, of "0.5"] vlength_scaled_unit[OF nz, of s] by simp
  have "cross (cross ?d (t_zAxis tu)) (t_zAxis tu) = - ?d"
    using cross_z_twice[OF z dz] .
  then show "seg_v (t_front (turn_right (move (turn_right (rotate tu ?d))
               (smul 0.5 (seg_v (t_right (rotate tu ?d))))))) = - ?d"
    by (simp add: move_def turn_right_def rotate_def Let_def)
qed

lemma route_start:
  assumes "sp \<noteq> 0"
  shows "\<exists>pf. PathFinder_init tr sp bw cw = Inr pf
           \<and> route fuel tr sp bw cw p v mx = run_loop fuel ((start pf p v)\<lparr>max_iter := real_of_int mx\<rparr>)
           \<and> iter pf = 0 \<and> coords pf = []"
  using assms by (simp add: route_def PathFinder_init_def Let_def)

lemma backward_front_eq:
  "backward_front pf v bw l =
     ebind (intersect pf (new_Seg (t_p (turtle pf) + smul (l_t l) v) (smul 1.5 v))) (\<lambda>x.
       ebind (backward_side pf (l\<lparr>l_p := t_p (turtle pf) + smul (l_t l) v\<rparr>)) (\<lambda>l.
         if \<bar>l_t l\<bar> < 0.5 then Inr (pf\<lparr>run := False\<rparr>, False)
         else backward_draw pf v bw l))"
  by (simp add: backward_front_def Let_def split_def)

lemma backward_no_predecessor:
  assumes "py_index (segs pf) (last pf) = Inr seg"
    and "wall_seg (pf\<lparr>iter := iter pf + 1\<rparr>) (snd (farest_point (t_front (turtle pf)) seg)) = Inr (- 1)"
    and "backward pf = Inr (pf', r)"
  shows "r \<and> \<not> run pf' \<and> last pf' = - 1"
proof -
  obtain t p0 where fp: "farest_point (t_front (turtle pf)) seg = (t, p0)"
    by (cases "farest_point (t_front (turtle pf)) seg")
  have seg': "py_index (segs (pf\<lparr>iter := iter pf + 1\<rparr>)) (last pf) = Inr seg"
    using assms(1) by (simp add: segs_def)
  obtain l where d: "backward_draw (pf\<lparr>iter := iter pf + 1, run := False\<rparr>)
                       (seg_v (t_front (turtle pf))) True l = Inr (pf', r)"
    and l: "l_next l = - 1"
    using assms(2,3) seg' fp by (auto simp: backward_def Let_def ebind_def)
  from backward_draw_frame[OF d] have "r" "\<not> run pf'" by simp_all
  moreover have "last pf' = - 1"
    using d l unfolding backward_draw_def
    by (cases "l_dir l") (auto simp: ebind_Inr_iff Let_def insert_seg_eq)
  ultimately show ?thesis by simp
qed

section \<open>A run under the cap of one iteration\<close>






section \<open>Code equations without square roots\<close>

lemma vlength_code [code]:
  "vlength a =
     (if vy a = 0 \<and> vz a = 0 then \<bar>vx a\<bar> else if vx a = 0 \<and> vz a = 0 then \<bar>vy a\<bar>
      else if vx a = 0 \<and> vy a = 0 then \<bar>vz a\<bar>
      else sqrt_irr (dot a a))"
  by (auto simp: vlength_def sqrt_irr_def dot_def)

lemma vlength_sq: "(vlength a)\<^sup>2 = dot a a"
  by (simp add: vlength_def dot_def)

lemma vlength_nonneg: "0 \<le> vlength a"
  by (simp add: vlength_def)

lemma vlength_less_iff: "0 < c \<Longrightarrow> vlength a < c \<longleftrightarrow> dot a a < c\<^sup>2"
  using real_sqrt_less_iff[of "dot a a" "c\<^sup>2"] by (simp add: vlength_def dot_def)

lemma vlength_zero_iff: "vlength a = 0 \<longleftrightarrow> dot a a = 0"
  by (simp add: vlength_def dot_def)

lemma vlength_tol: "vlength a < 0.0001 \<longleftrightarrow> dot a a < 0.00000001"
proof -
  have "vlength a < 0.0001 \<longleftrightarrow> dot a a < (0.0001)\<^sup>2"
    by (rule vlength_less_iff) simp
  also have "(0.0001::real)\<^sup>2 = 0.00000001"
    by (simp add: power2_eq_square)
  finally show ?thesis .
qed

lemma seg_at_pos_code [code]:
  "seg_at_pos seg p =
     (let v0 = seg_p seg - p
      in dot v0 v0 < 0.00000001 \<or> dot (v0 + seg_v seg) (v0 + seg_v seg) < 0.00000001)"
  by (simp only: seg_at_pos_def Let_def vlength_tol)

lemma point_on_seg_code [code]:
  "point_on_seg self pt =
     (let dp = pt - seg_p self;
          q = dot (seg_v self) (seg_v self)
      in if q = 0 then 0 else dot (seg_v self) dp / q)"
  by (simp add: point_on_seg_def Let_def vlength_zero_iff vlength_sq)

lemma normalized_code [code]:
  "normalized a = (if dot a a = 0 then Vector 0 0 0 else smul (1 / vlength a) a)"
  by (simp add: normalized_def vlength_zero_iff)

lemma normal_code [code]:
  "normal pf seg =
     (let n = cross (normalized (seg_v seg)) (t_zAxis (turtle pf));
          v = normalized (seg_v (t_front (turtle pf)))
      in if dot (n + v) (n + v) < 1 then (smul (spacing pf) (- n), vlength (- n + v))
         else (smul (spacing pf) n, vlength (n + v)))"
  by (simp add: normal_def Let_def vlength_less_iff)

lemma snd_normal: "snd (normal pf seg) = vlength (normal_arg pf seg)"
  by (simp add: normal_code normal_arg_def Let_def)

lemma vlength_gt_iff: "vlength a > vlength b \<longleftrightarrow> dot a a > dot b b"
  by (simp add: vlength_def dot_def)

lemma obstacle_seg_scan_loop:
  "obstacle_seg_loop pf p found (acc_len m, idx, n)
     = map_sum id (\<lambda>(m', r). (acc_len m', r)) (obstacle_seg_scan pf p found (m, idx, n))"
proof (induction found arbitrary: m idx n)
  case Nil
  then show ?case by simp
next
  case (Cons i found)
  show ?case
  proof (cases "py_index (segs pf) i")
    case (Inl e)
    then show ?thesis by simp
  next
    case (Inr seg)
    obtain ni d where nd: "normal pf seg = (ni, d)" by (cases "normal pf seg")
    have d: "d = vlength (normal_arg pf seg)" using snd_normal[of pf seg] nd by simp
    have cmp: "(d > acc_len m) = (case m of None \<Rightarrow> True
                 | Some a \<Rightarrow> dot (normal_arg pf seg) (normal_arg pf seg) > dot a a)"
    proof (cases m)
      case None
      have "0 \<le> d" using d vlength_nonneg by simp
      then show ?thesis using None by (simp add: acc_len_def)
    next
      case (Some a)
      then show ?thesis using d by (simp add: acc_len_def vlength_gt_iff)
    qed
    have al: "acc_len (Some (normal_arg pf seg)) = d" using d by (simp add: acc_len_def)
    show ?thesis
      using Inr nd cmp Cons.IH[of m idx n] Cons.IH[of "Some (normal_arg pf seg)" i ni] al
      by simp
  qed
qed

lemma obstacle_seg_code [code]:
  "obstacle_seg pf p =
     (let found = intersects_ext (tree pf) (SeekPoint_envelope p) 0.001
      in ebind (obstacle_seg_scan pf p found (None, - 1, seg_v (t_front (turtle pf))))
           (\<lambda>(m, idx, n). Inr (idx, n)))"
proof -
  have "obstacle_seg_loop pf p found (- 1, - 1, n0)
          = map_sum id (\<lambda>(m', r). (acc_len m', r)) (obstacle_seg_scan pf p found (None, - 1, n0))"
    for found n0
    using obstacle_seg_scan_loop[of pf p found None "- 1" n0] by (simp add: acc_len_def)
  then show ?thesis
    by (simp add: obstacle_seg_def Let_def ebind_def split: sum.splits prod.splits)
qed


section \<open>The engine evaluated on the concrete inputs\<close>

lemma square_fields:
  "spacing square_pf = 0.3" "n_boundarys square_pf = 4"
  "t_zAxis (turtle square_pf) = Vector 0 0 1" "iter square_pf = 0" "max_iter square_pf = 1"
  "is_forward square_pf" "run square_pf" "coords square_pf = [Vector (- 1.85) (- 1.85) 0]"
  "geoms (tree square_pf) = geoms square_tree" "length (geoms square_tree) = 4"
  by code_simp+

lemma square_intersect_right:
  "intersect square_pf (t_right (turtle square_pf)) = Inr (True, 1 / 2, 0)"
  by code_simp

lemma square_forward_wall:
  "forward_wall square_pf = Inr (square_pf\<lparr>last := 0\<rparr>, wall_vars (- 1) (37 / 3) (Vector 1.85 (- 2) 0) False)"
  by code_simp

lemma square_backward_wall:
  "backward_wall square_pf (Vector 2 (- 2) 0) 1 = Inr (wall_vars 1 (157 / 12) (Vector 2.075 (- 2) 0) False)"
  by code_simp

lemma square_next_step: "next_step square_pf = Inr (square_pf1, True)"
  by code_simp

lemma corner_fields:
  "spacing corner_pf = 0.3" "iter corner_pf = 0" "max_iter corner_pf = 200"
  "is_forward corner_pf" "run corner_pf"
  "t_zAxis (turtle corner_pf) = Vector 0 0 1" "t_p (turtle corner_pf) = Vector 1.8 (- 1.85) 0"
  "py_index (segs corner_pf) (- 1) = Inr \<lparr>seg_p = Vector (- 2) 2 0, seg_v = Vector 0 (- 4) 0, seg_idx = - 1\<rparr>"
  "t_p (turtle corner_pf1) = Vector 1.65 (- 1.85) 0"
  "seg_v (t_front (turtle corner_pf1)) = Vector 0 0.3 0"
  "iter corner_pf1 = 1" "max_iter corner_pf1 = 200" "run corner_pf1"
  by code_simp+

lemma corner_forward_wall:
  "forward_wall (corner_pf\<lparr>iter := 1\<rparr>)
     = Inr (corner_pf\<lparr>iter := 1, last := 0\<rparr>, wall_vars (- 1) (1 / 6) (Vector 1.85 (- 2) 0) False)"
  by code_simp

lemma corner_forward_resolve:
  "forward_resolve (corner_pf\<lparr>iter := 1, last := 0\<rparr>) (wall_vars (- 1) (1 / 6) (Vector 1.85 (- 2) 0) False)
   = Inr (wall_vars (- 1) (1 / 6) (Vector 1.85 (- 2) 0) True)"
  by code_simp

lemma corner_forward: "forward corner_pf = Inr (corner_pf1, False)"
  by code_simp

lemma stop_backward: "backward stop_pf = Inr (stop_pf\<lparr>iter := 5, run := False\<rparr>, False)"
  by code_simp

lemma square_pf1_fields:
  "is_forward square_pf1" "iter square_pf1 = 1" "max_iter square_pf1 = 1" "run square_pf1"
  "coords square_pf1 = [Vector (- 1.85) (- 1.85) 0, Vector 1.85 (- 1.85) 0]"
  using square_fields by (simp_all add: square_pf1_def)

lemma square_second_step: "next_step square_pf1 = Inr (square_pf2, False)"
  using next_step_capped[of square_pf1] by (simp add: square_pf1_fields square_pf2_def)

lemma square_run: "run_loop (Suc (Suc k)) square_pf = Some (Inr square_pf2)"
  by (simp add: square_next_step square_second_step)

lemma square_route:
  "route fuel square_tree 0.3 True True (Vector (- 1.85) (- 1.85) 0) (Vector 0.3 0 0) 1
     = run_loop fuel square_pf"
  by (simp add: route_def square_pf_def square_start_def PathFinder_init_def Let_def ebind_def)







section \<open>The claims about the engine\<close>

subsection \<open>Clearance of the probe line\<close>

text \<open>
  Claim C1. In the forward step the probe line whose parameter on the turtle's front is
  the advance \<open>t\<close> is parallel to the constraining edge, at half the spacing from it when
  the index \<open>next\<close> of the edge is below \<open>n_boundarys\<close> and at a full spacing otherwise;
  in the backward step the two distances are a quarter and a half of the spacing. The
  edge is taken in the plane, with a direction that is not zero, and the turtle's \<open>zAxis\<close>
  is \<open>(0, 0, 1)\<close> or \<open>(0, 0, -1)\<close>, as \<^verbatim>\<open>init_side\<close> sets it. (The index compared is the
  variable \<open>next\<close>: when \<^verbatim>\<open>wall_seg\<close> finds nothing it is \<open>-1\<close>, which is below
  \<open>n_boundarys\<close>, and the edge is \<^verbatim>\<open>segs[-1]\<close>.)
\<close>

theorem probe_offsets:
  assumes z: "t_zAxis (turtle pf) = Vector 0 0 1 \<or> t_zAxis (turtle pf) = Vector 0 0 (- 1)"
  shows "(forward_wall pf = Inr (pf', l) \<and> vz (seg_v (l_seg l)) = 0 \<and> length2d (seg_v (l_seg l)) \<noteq> 0
            \<longrightarrow> l_t l = Seg_t (t_front (turtle pf)) (forward_probe l)
                \<and> seg_v (forward_probe l) = seg_v (l_seg l)
                \<and> perp_dist (l_seg l) (seg_p (forward_probe l))
                    = (if l_next l < n_boundarys pf then \<bar>spacing pf\<bar> / 2 else \<bar>spacing pf\<bar>))
       \<and> (backward_wall pf p0 nxt = Inr b \<and> vz (seg_v (l_seg b)) = 0 \<and> length2d (seg_v (l_seg b)) \<noteq> 0
            \<longrightarrow> l_t b = Seg_t (t_front (turtle pf)) (backward_probe b)
                \<and> seg_v (backward_probe b) = seg_v (l_seg b)
                \<and> perp_dist (l_seg b) (seg_p (backward_probe b))
                    = (if nxt < n_boundarys pf then \<bar>spacing pf\<bar> / 4 else \<bar>spacing pf\<bar> / 2))"
proof (intro conjI impI)
  assume a: "forward_wall pf = Inr (pf', l) \<and> vz (seg_v (l_seg l)) = 0 \<and> length2d (seg_v (l_seg l)) \<noteq> 0"
  note p = forward_wall_probe[of pf pf' l]
  have z': "t_zAxis (turtle (pf\<lparr>last := last pf'\<rparr>)) = Vector 0 0 1 \<or> t_zAxis (turtle (pf\<lparr>last := last pf'\<rparr>)) = Vector 0 0 (- 1)"
    using z by simp
  show "l_t l = Seg_t (t_front (turtle pf)) (forward_probe l)" using a p by simp
  show "seg_v (forward_probe l) = seg_v (l_seg l)" by (simp add: forward_probe_def new_Seg_def)
  have "perp_dist (l_seg l) (seg_p (forward_probe l))
          = \<bar>l_side l * (if l_next l < n_boundarys pf then 0.5 else 1)\<bar> * \<bar>spacing (pf\<lparr>last := last pf'\<rparr>)\<bar>"
    using a p offset_perp_dist[OF z', of "l_seg l" "l_side l * (if l_next l < n_boundarys pf then 0.5 else 1)"]
    by (simp add: forward_probe_def new_Seg_def)
  then show "perp_dist (l_seg l) (seg_p (forward_probe l))
                    = (if l_next l < n_boundarys pf then \<bar>spacing pf\<bar> / 2 else \<bar>spacing pf\<bar>)"
    using a p by (auto simp: abs_mult)
next
  assume a: "backward_wall pf p0 nxt = Inr b \<and> vz (seg_v (l_seg b)) = 0 \<and> length2d (seg_v (l_seg b)) \<noteq> 0"
  note p = backward_wall_probe[of pf p0 nxt b]
  show "l_t b = Seg_t (t_front (turtle pf)) (backward_probe b)" using a p by simp
  show "seg_v (backward_probe b) = seg_v (l_seg b)" by (simp add: backward_probe_def new_Seg_def)
  have "perp_dist (l_seg b) (seg_p (backward_probe b))
          = \<bar>l_side b * (if nxt < n_boundarys pf then 0.25 else 0.5)\<bar> * \<bar>spacing pf\<bar>"
    using a p offset_perp_dist[OF z, of "l_seg b" "l_side b * (if nxt < n_boundarys pf then 0.25 else 0.5)"]
    by (simp add: backward_probe_def new_Seg_def)
  then show "perp_dist (l_seg b) (seg_p (backward_probe b))
                    = (if nxt < n_boundarys pf then \<bar>spacing pf\<bar> / 4 else \<bar>spacing pf\<bar> / 2)"
    using a p by (auto simp: abs_mult)
qed

text \<open>
  Witness for C1: the first step on the square. The edge ahead is the second edge of the
  boundary (index 1, below \<open>n_boundarys = 4\<close>); the forward probe starts \<open>0.15\<close> from
  it and the backward probe \<open>0.075\<close>, for the spacing \<open>0.3\<close>.
\<close>

theorem probe_offsets_witness:
  "t_zAxis (turtle square_pf) = Vector 0 0 1
   \<and> forward_wall square_pf
       = Inr (square_pf\<lparr>last := 0\<rparr>, wall_vars (- 1) (37 / 3) (Vector 1.85 (- 2) 0) False)
   \<and> perp_dist \<lparr>seg_p = Vector 2 (- 2) 0, seg_v = Vector 0 4 0, seg_idx = - 1\<rparr>
        (Vector 1.85 (- 2) 0) = 0.15
   \<and> backward_wall square_pf (Vector 2 (- 2) 0) 1
       = Inr (wall_vars 1 (157 / 12) (Vector 2.075 (- 2) 0) False)
   \<and> perp_dist \<lparr>seg_p = Vector 2 (- 2) 0, seg_v = Vector 0 4 0, seg_idx = - 1\<rparr>
        (Vector 2.075 (- 2) 0) = 0.075"
  using probe_offsets [of square_pf "square_pf\<lparr>last := 0\<rparr>"
      "wall_vars (- 1) (37 / 3) (Vector 1.85 (- 2) 0) False" "Vector 2 (- 2) 0" 1
      "wall_vars 1 (157 / 12) (Vector 2.075 (- 2) 0) False"]
    square_forward_wall square_backward_wall
  by (simp add: square_fields wall_vars_def forward_probe_def backward_probe_def new_Seg_def
      length2d_def)

subsection \<open>The iteration cap\<close>

text \<open>
  Claim C2. The constructor sets \<open>max_iter\<close> to width times height over the square of
  the spacing (the caller's loop overwrites it, see \<open>route\<close>). A call of \<^verbatim>\<open>next\<close> that
  returns with the counter above \<open>max_iter\<close> returns \<open>False\<close>, and in forward mode a call
  made when the next count exceeds the cap returns \<open>False\<close> at once. So the loop
  \<^verbatim>\<open>while run: run = pf.next()\<close> ends: with more fuel than \<open>floor max_iter - iter\<close> it
  does not run out of fuel, it makes at most \<open>floor max_iter - iter + 1\<close> calls, and it
  appends at most that many points; from the caller's start the polyline has at most
  \<open>max_iter + 2\<close> points.
\<close>

theorem iteration_cap:
  "(PathFinder_init tr sp bw cw = Inr pf0 \<longrightarrow> max_iter pf0 = width tr * height tr / sp\<^sup>2)
   \<and> (next_step ps = Inr (ps', r) \<and> real_of_int (iter ps') > max_iter ps' \<longrightarrow> \<not> r)
   \<and> (is_forward ps \<and> real_of_int (iter ps + 1) > max_iter ps \<longrightarrow>
        next_step ps = Inr (ps\<lparr>iter := iter ps + 1, is_forward := False\<rparr>, False))
   \<and> (nat (\<lfloor>max_iter pf\<rfloor> - iter pf) < fuel \<longrightarrow>
        run_loop fuel pf \<noteq> None
        \<and> run_calls fuel pf \<le> nat (\<lfloor>max_iter pf\<rfloor> - iter pf) + 1
        \<and> (case run_loop fuel pf of
             Some (Inr pf'') \<Rightarrow>
               length (coords pf'') \<le> length (coords pf) + nat (\<lfloor>max_iter pf\<rfloor> - iter pf) + 1
           | _ \<Rightarrow> True))
   \<and> (sp \<noteq> 0 \<and> nat mx < fuel \<longrightarrow>
        route fuel tr sp bw cw p v mx \<noteq> None
        \<and> (case route fuel tr sp bw cw p v mx of
             Some (Inr pf'') \<Rightarrow> length (coords pf'') \<le> nat mx + 2
           | _ \<Rightarrow> True))"
proof -
  have a: "max_iter pf0 = width tr * height tr / sp\<^sup>2" if "PathFinder_init tr sp bw cw = Inr pf0"
    using that by (auto simp: PathFinder_init_def Let_def split: if_splits)
  have b: "\<not> r" if "next_step ps = Inr (ps', r)" "real_of_int (iter ps') > max_iter ps'"
    using next_step_frame[OF that(1)] that(2) by blast
  have c: "run_loop fuel pf \<noteq> None
        \<and> run_calls fuel pf \<le> nat (\<lfloor>max_iter pf\<rfloor> - iter pf) + 1
        \<and> (case run_loop fuel pf of
             Some (Inr pf'') \<Rightarrow>
               length (coords pf'') \<le> length (coords pf) + nat (\<lfloor>max_iter pf\<rfloor> - iter pf) + 1
           | _ \<Rightarrow> True)"
    if "nat (\<lfloor>max_iter pf\<rfloor> - iter pf) < fuel" for pf :: PathFinder
    using run_loop_terminates[OF that] run_calls_bound[of fuel pf] run_loop_coords[of fuel pf]
    by (auto split: option.splits sum.splits)
  have d: "route fuel tr sp bw cw p v mx \<noteq> None
        \<and> (case route fuel tr sp bw cw p v mx of
             Some (Inr pf'') \<Rightarrow> length (coords pf'') \<le> nat mx + 2
           | _ \<Rightarrow> True)"
    if "sp \<noteq> 0" "nat mx < fuel"
  proof -
    from route_start[OF that(1), of tr bw cw fuel p v mx] obtain pf1 where
      rt: "route fuel tr sp bw cw p v mx = run_loop fuel ((start pf1 p v)\<lparr>max_iter := real_of_int mx\<rparr>)"
      and i: "iter pf1 = 0" and co: "coords pf1 = []"
      by blast
    let ?s = "(start pf1 p v)\<lparr>max_iter := real_of_int mx\<rparr>"
    have s: "iter ?s = 0" "max_iter ?s = real_of_int mx" "length (coords ?s) = 1"
      using i co by (simp_all add: start_def)
    have "nat (\<lfloor>max_iter ?s\<rfloor> - iter ?s) < fuel" using that(2) s by simp
    from c[OF this] show ?thesis unfolding rt using s
      by (auto split: option.splits sum.splits)
  qed
  have e: "next_step ps = Inr (ps\<lparr>iter := iter ps + 1, is_forward := False\<rparr>, False)"
    if "is_forward ps" "real_of_int (iter ps + 1) > max_iter ps"
    using that by (rule next_step_capped)
  show ?thesis using a b c d e by blast
qed

text \<open>
  Witness for C2: the square with \<open>max_iter = 1\<close>. The constructor's own cap is
  \<open>16 / 0.09\<close>; the second call of \<^verbatim>\<open>next\<close> counts to 2 and returns \<open>False\<close>; the loop
  ends after two calls.
\<close>

theorem iteration_cap_witness:
  "PathFinder_init square_tree 0.3 True True
     = Inr (projr (PathFinder_init square_tree 0.3 True True))
   \<and> max_iter (projr (PathFinder_init square_tree 0.3 True True)) = 16 / 0.09
   \<and> next_step square_pf1 = Inr (square_pf2, False)
   \<and> real_of_int (iter square_pf2) > max_iter square_pf2
   \<and> nat (\<lfloor>max_iter square_pf\<rfloor> - iter square_pf) < 2
   \<and> run_loop 2 square_pf = Some (Inr square_pf2)
   \<and> run_calls 2 square_pf \<le> 2
   \<and> length (coords square_pf2) \<le> 3
   \<and> route 2 square_tree 0.3 True True (Vector (- 1.85) (- 1.85) 0) (Vector 0.3 0 0) 1
        = Some (Inr square_pf2)"
proof -
  have a: "PathFinder_init square_tree 0.3 True True
     = Inr (projr (PathFinder_init square_tree 0.3 True True))"
    by (simp add: PathFinder_init_def Let_def)
  have w: "width square_tree = 4" "height square_tree = 4"
    by (simp_all add: square_tree_def newSegment_def Qtree_insert_def Let_def)
  have r: "run_loop 2 square_pf = Some (Inr square_pf2)"
    using square_run[of 0] by (simp add: numeral_2_eq_2)
  have f: "square_pf2 = square_pf1\<lparr>iter := 2, is_forward := False\<rparr>"
    by (simp add: square_pf2_def)
  from iteration_cap [where tr = square_tree and sp = "0.3" and bw = True and cw = True
      and ?pf0.0 = "projr (PathFinder_init square_tree 0.3 True True)"
      and ps = square_pf1 and ps' = square_pf2 and r = False
      and pf = square_pf and fuel = 2 and mx = 1
      and p = "Vector (- 1.85) (- 1.85) 0" and v = "Vector 0.3 0 0"]
    a square_second_step r square_route[of 2]
  show ?thesis
    by (simp add: w square_fields square_pf1_fields f power2_eq_square)
qed

subsection \<open>The cap of a pass too short to draw\<close>

text \<open>
  Claim C4. When the forward step resolves an advance \<open>t < 0.5\<close> it does not draw the
  pass. It rotates the turtle to the direction of \<^verbatim>\<open>segs[-1]\<close>, the segment inserted last,
  scaled to the spacing; turns right; moves by half of the front vector; appends the new
  position to the polyline and inserts the segment from the previous point to it under
  the index \<open>ngeoms\<close>; turns right again; assigns to \<open>last\<close> the index that the
  intersection query on the turtle's left probe returns; and returns \<open>False\<close>, on which
  \<^verbatim>\<open>next\<close> leaves forward mode. For a last segment in the plane with a direction that is
  not zero the move is half a spacing long, and after the two right turns the turtle
  heads against the direction of that segment.
\<close>

theorem forward_cap_maneuver:
  assumes cap: "\<not> real_of_int (iter pf + 1) > max_iter pf"
    and wall: "forward_wall (pf\<lparr>iter := iter pf + 1\<rparr>) = Inr (pf1, l)" and t0: "l_t l \<noteq> 0"
    and res: "forward_resolve pf1 l = Inr l'" and short: "l_t l' < 0.5"
    and ret: "forward pf = Inr (pf', r)"
    and fw: "is_forward pf"
  shows "\<not> r
     \<and> (\<exists>ls p0 it t.
           py_index (segs pf) (- 1) = Inr ls \<and> py_index (coords pf) (- 1) = Inr p0
           \<and> turtle pf' = turn_right (move (turn_right (rotate (turtle pf)
                  (smul (spacing pf) (normalized (seg_v ls)))))
                  (smul 0.5 (seg_v (t_right (rotate (turtle pf)
                     (smul (spacing pf) (normalized (seg_v ls))))))))
           \<and> coords pf' = coords pf @ [t_p (turtle pf')]
           \<and> geoms (tree pf') = geoms (tree pf)
                @ [\<lparr>seg_p = p0, seg_v = t_p (turtle pf') - p0, seg_idx = ngeoms (tree pf)\<rparr>]
           \<and> intersect pf' (t_left (turtle pf')) = Inr (it, t, last pf')
           \<and> ((t_zAxis (turtle pf) = Vector 0 0 1 \<or> t_zAxis (turtle pf) = Vector 0 0 (- 1))
                \<and> vz (seg_v ls) = 0 \<and> vlength (seg_v ls) \<noteq> 0
               \<longrightarrow> vlength (t_p (turtle pf') - t_p (turtle pf)) = \<bar>spacing pf\<bar> / 2
                   \<and> seg_v (t_front (turtle pf'))
                       = - smul (spacing pf) (normalized (seg_v ls))))
     \<and> next_step pf = Inr (pf'\<lparr>is_forward := False\<rparr>,
                            \<not> real_of_int (iter pf') > max_iter pf' \<and> run pf')"
proof -
  from forward_wall_frame[OF wall] obtain i where pf1: "pf1 = pf\<lparr>iter := iter pf + 1, last := i\<rparr>"
    by auto
  let ?pfc = "pf1\<lparr>last := l_next l'\<rparr>"
  have c: "forward_cap ?pfc = Inr (pf', r)"
    using forward_takes_cap[OF cap wall t0 res short] ret by simp
  from forward_cap_effect[OF c] obtain ls p0 it t where
    r: "\<not> r"
    and ls: "py_index (segs ?pfc) (- 1) = Inr ls" and p0: "py_index (coords ?pfc) (- 1) = Inr p0"
    and tu: "turtle pf' = turn_right (move (turn_right (rotate (turtle ?pfc)
                  (smul (spacing ?pfc) (normalized (seg_v ls)))))
                  (smul 0.5 (seg_v (t_right (rotate (turtle ?pfc)
                     (smul (spacing ?pfc) (normalized (seg_v ls))))))))"
    and co: "coords pf' = coords ?pfc @ [t_p (turtle pf')]"
    and ge: "geoms (tree pf') = geoms (tree ?pfc)
                @ [\<lparr>seg_p = p0, seg_v = t_p (turtle pf') - p0, seg_idx = ngeoms (tree ?pfc)\<rparr>]"
    and ix: "intersect pf' (t_left (turtle pf')) = Inr (it, t, last pf')"
    by blast
  have same: "turtle ?pfc = turtle pf" "spacing ?pfc = spacing pf" "coords ?pfc = coords pf"
    "tree ?pfc = tree pf" "segs ?pfc = segs pf"
    by (simp_all add: pf1 segs_def)
  have geo: "vlength (t_p (turtle pf') - t_p (turtle pf)) = \<bar>spacing pf\<bar> / 2
             \<and> seg_v (t_front (turtle pf')) = - smul (spacing pf) (normalized (seg_v ls))"
    if z: "t_zAxis (turtle pf) = Vector 0 0 1 \<or> t_zAxis (turtle pf) = Vector 0 0 (- 1)"
      and flat: "vz (seg_v ls) = 0" and nz: "vlength (seg_v ls) \<noteq> 0"
  proof -
    note g = cap_geometry[OF z flat nz, of "spacing pf"]
    have tp: "t_p (turtle pf') = t_p (move (turn_right (rotate (turtle pf)
                  (smul (spacing pf) (normalized (seg_v ls)))))
                  (smul 0.5 (seg_v (t_right (rotate (turtle pf)
                     (smul (spacing pf) (normalized (seg_v ls))))))))"
      unfolding tu same by (simp add: turn_right_def rotate_def Let_def)
    show ?thesis
      using g(2) g(3) g(4) unfolding tp by (simp add: tu same)
  qed
  have nx: "next_step pf = Inr (pf'\<lparr>is_forward := False\<rparr>,
                            \<not> real_of_int (iter pf') > max_iter pf' \<and> run pf')"
    using next_step_forward_False[OF fw] ret r by simp
  show ?thesis
    using r ls p0 tu co ge ix geo nx unfolding same by blast
qed

text \<open>
  Witness for C4: the engine started \<open>0.2\<close> before the corner of the square. The advance
  resolved is \<open>1/6\<close>; the step appends the point \<open>0.15\<close> to the left of the start and
  returns \<open>False\<close>, and \<^verbatim>\<open>next\<close> leaves forward mode.
\<close>

theorem forward_cap_maneuver_witness:
  "forward corner_pf = Inr (corner_pf1, False)
   \<and> coords corner_pf1 = coords corner_pf @ [Vector 1.65 (- 1.85) 0]
   \<and> vlength (Vector 1.65 (- 1.85) 0 - Vector 1.8 (- 1.85) 0) = 0.15
   \<and> seg_v (t_front (turtle corner_pf1))
       = - smul 0.3 (normalized (Vector 0 (- 4) 0))
   \<and> next_step corner_pf = Inr (corner_pf1\<lparr>is_forward := False\<rparr>, True)"
proof -
  note t = forward_cap_maneuver [of corner_pf "corner_pf\<lparr>iter := 1, last := 0\<rparr>"
      "wall_vars (- 1) (1 / 6) (Vector 1.85 (- 2) 0) False"
      "wall_vars (- 1) (1 / 6) (Vector 1.85 (- 2) 0) True" corner_pf1 False]
  have h: "\<not> real_of_int (iter corner_pf + 1) > max_iter corner_pf"
    "forward_wall (corner_pf\<lparr>iter := iter corner_pf + 1\<rparr>)
       = Inr (corner_pf\<lparr>iter := 1, last := 0\<rparr>, wall_vars (- 1) (1 / 6) (Vector 1.85 (- 2) 0) False)"
    "l_t (wall_vars (- 1) (1 / 6) (Vector 1.85 (- 2) 0) False) \<noteq> 0"
    "l_t (wall_vars (- 1) (1 / 6) (Vector 1.85 (- 2) 0) True) < 0.5"
    by (simp_all add: corner_fields corner_forward_wall wall_vars_def)
  from t[OF h(1) h(2) h(3) corner_forward_resolve h(4) corner_forward corner_fields(4)]
  obtain ls where ls: "py_index (segs corner_pf) (- 1) = Inr ls"
    and co: "coords corner_pf1 = coords corner_pf @ [t_p (turtle corner_pf1)]"
    and geo: "(t_zAxis (turtle corner_pf) = Vector 0 0 1 \<or> t_zAxis (turtle corner_pf) = Vector 0 0 (- 1))
                \<and> vz (seg_v ls) = 0 \<and> vlength (seg_v ls) \<noteq> 0
               \<longrightarrow> vlength (t_p (turtle corner_pf1) - t_p (turtle corner_pf)) = \<bar>spacing corner_pf\<bar> / 2
                   \<and> seg_v (t_front (turtle corner_pf1))
                       = - smul (spacing corner_pf) (normalized (seg_v ls))"
    and nx: "next_step corner_pf = Inr (corner_pf1\<lparr>is_forward := False\<rparr>,
                            \<not> real_of_int (iter corner_pf1) > max_iter corner_pf1 \<and> run corner_pf1)"
    by blast
  have lsv: "ls = \<lparr>seg_p = Vector (- 2) 2 0, seg_v = Vector 0 (- 4) 0, seg_idx = - 1\<rparr>"
    using ls by (simp add: corner_fields)
  show ?thesis
    using co geo nx corner_forward
    by (simp add: lsv corner_fields vlength_def)
qed

subsection \<open>Spacing that is not positive\<close>

text \<open>
  Claim C5, as stated: a configuration with \<open>spacing \<le> 0\<close> is rejected before any routing
  step, with a descriptive error. It is not: the constructor accepts the spacing \<open>-1\<close>
  and returns an engine, and for the spacing \<open>0\<close> its last line divides by zero.
\<close>

theorem rejects_spacing_counterexample:
  "\<not> isl (PathFinder_init square_tree (- 1) True True)
   \<and> spacing (projr (PathFinder_init square_tree (- 1) True True)) = - 1
   \<and> PathFinder_init square_tree 0 True True = Inl ZeroDivisionError"
  by (simp add: PathFinder_init_def Let_def)

text \<open>
  Claim C5, amended: the constructor does not check the spacing. For the spacing \<open>0\<close> the
  division in its last line raises \<^verbatim>\<open>ZeroDivisionError\<close>, on every index, and the
  caller's lines around the loop pass that exception on. For every spacing \<open>sp\<close> with
  \<^verbatim>\<open>1e-100 <= abs(sp) <= 1e100\<close>, of either sign, it returns an engine with that spacing,
  with \<open>max_iter\<close> equal to width times height over its square, ready to run. (The bounds
  keep the square of a float away from underflow to zero and from overflow; the division
  is then by a number that is not zero.)
\<close>

theorem spacing_unchecked:
  "PathFinder_init tr 0 bw cw = Inl ZeroDivisionError
   \<and> route fuel tr 0 bw cw p v mx = Some (Inl ZeroDivisionError)
   \<and> (1 / 10 ^ 100 \<le> \<bar>sp\<bar> \<and> \<bar>sp\<bar> \<le> 10 ^ 100 \<longrightarrow>
        (case PathFinder_init tr sp bw cw of
           Inl e \<Rightarrow> False
         | Inr pf \<Rightarrow> spacing pf = sp \<and> max_iter pf = width tr * height tr / sp\<^sup>2
                    \<and> iter pf = 0 \<and> coords pf = [] \<and> run pf \<and> is_forward pf))"
proof -
  have z: "PathFinder_init tr 0 bw cw = Inl ZeroDivisionError"
    by (simp add: PathFinder_init_def Let_def)
  have nz: "sp \<noteq> 0" if "1 / 10 ^ 100 \<le> \<bar>sp\<bar>"
  proof
    assume "sp = 0"
    with that have "(1 :: real) / 10 ^ 100 \<le> 0" by simp
    then show False by simp
  qed
  show ?thesis
    using z nz by (auto simp: route_def PathFinder_init_def Let_def)
qed

text \<open>
  Witness for C5: the spacing \<open>-1\<close> on the square gives an engine with that spacing and
  \<open>max_iter = 16\<close>.
\<close>

theorem spacing_unchecked_witness:
  "1 / 10 ^ 100 \<le> \<bar>- 1 :: real\<bar> \<and> \<bar>- 1 :: real\<bar> \<le> 10 ^ 100
   \<and> (case PathFinder_init square_tree (- 1) True True of
         Inl e \<Rightarrow> False
       | Inr pf \<Rightarrow> spacing pf = - 1 \<and> max_iter pf = 16)"
proof -
  have w: "width square_tree = 4" "height square_tree = 4"
    by (simp_all add: square_tree_def newSegment_def Qtree_insert_def Let_def)
  have b: "1 / 10 ^ 100 \<le> \<bar>- 1 :: real\<bar>" "\<bar>- 1 :: real\<bar> \<le> 10 ^ 100"
    by simp_all
  from spacing_unchecked [of square_tree True True 0 "Vector 0 0 0" "Vector 0 0 0" 0 "- 1"] b
  show ?thesis
    by (auto simp: w split: sum.splits)
qed

subsection \<open>The cap of one iteration on the square\<close>




subsection \<open>Growth of the index\<close>

text \<open>
  Claim C8. The index only grows. \<^verbatim>\<open>Tree.newSegment\<close> appends its segment;
  \<^verbatim>\<open>PathFinder.insert\<close> appends its segment, stamps it with the index \<open>ngeoms\<close> it had
  before, returns that index, and leaves \<open>ngeoms\<close> one above it. Over a call of
  \<^verbatim>\<open>next\<close>, and over a whole run, the old segments stay in place and the segments added
  carry the indices from the old \<open>ngeoms\<close> up to the new \<open>ngeoms - 1\<close>, one after the
  other, so each exceeds all the ones before.
\<close>

theorem index_monotone:
  "fst (newSegment tr c0 c1) = tr\<lparr>geoms := geoms tr @ [snd (newSegment tr c0 c1)]\<rparr>
   \<and> insert_seg pf p0 p1
       = (pf\<lparr>tree := (tree pf)\<lparr>geoms := geoms (tree pf)
                 @ [\<lparr>seg_p = p0, seg_v = p1 - p0, seg_idx = ngeoms (tree pf)\<rparr>]\<rparr>\<rparr>,
          ngeoms (tree pf))
   \<and> ngeoms (tree (fst (insert_seg pf p0 p1))) = snd (insert_seg pf p0 p1) + 1
   \<and> (next_step pf = Inr (pf', r) \<longrightarrow> grown (tree pf) (tree pf'))
   \<and> (run_loop fuel pf = Some (Inr pf'') \<longrightarrow>
        grown (tree pf) (tree pf'')
        \<and> sorted_wrt (<) (map seg_idx (drop (length (geoms (tree pf))) (geoms (tree pf'')))))"
proof -
  have "sorted_wrt (<) (map seg_idx (drop (length (geoms (tree pf))) (geoms (tree pf''))))"
    if "grown (tree pf) (tree pf'')"
    using that by (simp add: grown_def)
  then show ?thesis
    using next_step_grown[of pf pf' r] run_loop_grown[of fuel pf pf'']
    by (simp add: newSegment_def Let_def Qtree_insert_def insert_seg_eq ngeoms_def)
qed

text \<open>
  Witness for C8: the run on the square under the cap \<open>max_iter = 1\<close>, which inserts one
  segment, under the index 4.
\<close>

theorem index_monotone_witness:
  "next_step square_pf = Inr (square_pf1, True)
   \<and> grown (tree square_pf) (tree square_pf1)
   \<and> run_loop 2 square_pf = Some (Inr square_pf2)
   \<and> grown (tree square_pf) (tree square_pf2)
   \<and> map seg_idx (drop (length (geoms (tree square_pf))) (geoms (tree square_pf2))) = [4]"
proof -
  have r: "run_loop 2 square_pf = Some (Inr square_pf2)"
    using square_run[of 0] by (simp add: numeral_2_eq_2)
  have m: "map seg_idx (drop (length (geoms (tree square_pf))) (geoms (tree square_pf2))) = [4]"
    by (simp add: square_pf2_def square_pf1_def)
  from index_monotone [of square_tree "(0, 0)" "(0, 0)" square_pf "Vector 0 0 0" "Vector 0 0 0"
      square_pf1 True 2 square_pf2] square_next_step r m
  show ?thesis by simp
qed

subsection \<open>The unconditional branch of the backward step\<close>

text \<open>
  Claim C9. In the backward step the test \<^verbatim>\<open>if it or True\<close> always takes its first
  branch: the block is the same function without the \<^verbatim>\<open>else\<close> branch that assigns
  \<^verbatim>\<open>backward = False\<close>. So when \<^verbatim>\<open>backward\<close> returns \<open>False\<close> it is through the stop
  \<open>abs(t) < 0.5\<close> after the side probe: nothing is drawn, and the state is the old one
  with the counter advanced and \<open>run\<close> cleared. (When no predecessor is found the method
  clears \<open>run\<close> too, but draws and returns \<open>True\<close>: lemma \<open>backward_no_predecessor\<close>.)
\<close>

theorem backward_false_only_by_stop:
  "backward_front pf v bw l =
     ebind (intersect pf (new_Seg (t_p (turtle pf) + smul (l_t l) v) (smul 1.5 v))) (\<lambda>x.
       ebind (backward_side pf (l\<lparr>l_p := t_p (turtle pf) + smul (l_t l) v\<rparr>)) (\<lambda>l.
         if \<bar>l_t l\<bar> < 0.5 then Inr (pf\<lparr>run := False\<rparr>, False)
         else backward_draw pf v bw l))
   \<and> (backward pf = Inr (pf', r) \<and> \<not> r \<longrightarrow>
        pf' = pf\<lparr>iter := iter pf + 1, run := False\<rparr>
        \<and> (\<exists>l0 l'. backward_side (pf\<lparr>iter := iter pf + 1\<rparr>) l0 = Inr l' \<and> \<bar>l_t l'\<bar> < 0.5))"
  using backward_result[of pf pf' r] backward_front_eq[of pf v bw l] by blast

text \<open>
  Witness for C9: the fifth step of the run on the square with spacing \<open>3\<close>, a backward
  step that returns \<open>False\<close>.
\<close>

theorem backward_false_only_by_stop_witness:
  "backward stop_pf = Inr (stop_pf\<lparr>iter := 5, run := False\<rparr>, False)
   \<and> (\<exists>l0 l'. backward_side (stop_pf\<lparr>iter := 5\<rparr>) l0 = Inr l' \<and> \<bar>l_t l'\<bar> < 0.5)"
proof -
  have i: "iter stop_pf + 1 = 5" by (simp add: stop_pf_def)
  from backward_false_only_by_stop [of stop_pf "Vector 0 0 0" True
      "wall_vars 1 0 (Vector 0 0 0) False" "stop_pf\<lparr>iter := 5, run := False\<rparr>" False]
    stop_backward
  show ?thesis by (simp add: i)
qed

subsection \<open>The segment inserted last is never hit\<close>

text \<open>
  Witness for C10: the right probe of the turtle at the start on the square. The
  candidates are the first edge only; the query reports a hit on it, index 0, and the
  index left out is 3.
\<close>

theorem intersect_excludes_last_witness:
  "intersect_loop (segs square_pf) 3 (t_right (turtle square_pf)) [0]
       (False, 10 ^ 32, - 1) = Inr (True, 1 / 2, 0)
   \<and> intersect square_pf (t_right (turtle square_pf)) = Inr (True, 1 / 2, 0)
   \<and> ngeoms (tree square_pf) - 1 = 3
   \<and> (0 :: int) \<noteq> ngeoms (tree square_pf) - 1"
proof -
  have l: "intersect_loop (segs square_pf) 3 (t_right (turtle square_pf)) [0]
       (False, 10 ^ 32, - 1) = Inr (True, 1 / 2, 0)"
    by code_simp
  have n: "ngeoms (tree square_pf) - 1 = 3"
    by (simp add: ngeoms_def square_fields)
  from intersect_excludes_last [of "segs square_pf" 3 "t_right (turtle square_pf)" "[0]"
      True "1 / 2" 0 square_pf] l square_intersect_right n
  show ?thesis by simp
qed

end
